theory Spec2Isabelle
  imports Main "HOL-Library.Sublist"
begin

section \<open>Go strings\<close>

text \<open>
  A Go \<^verbatim>\<open>string\<close> is a sequence of bytes, modelled as \<^typ>\<open>string\<close> (a list of 8-bit
  characters). \<^verbatim>\<open>strings.Contains\<close> and \<^verbatim>\<open>strings.Split\<close> work on bytes;
  \<^verbatim>\<open>strings.TrimSpace\<close> decodes UTF-8 and removes the runes of Unicode's White_Space
  property, so the model lists the UTF-8 encoding of each of them.
\<close>

definition spaceRunes :: "string list" where
  \<comment> \<open>\<^verbatim>\<open>unicode.IsSpace\<close>: tab, LF, VT, FF, CR, space, U+0085, U+00A0, U+1680,
      U+2000 .. U+200A, U+2028, U+2029, U+202F, U+205F, U+3000, each in UTF-8.\<close>
  "spaceRunes =
     [[CHR 0x09], [CHR 0x0A], [CHR 0x0B], [CHR 0x0C], [CHR 0x0D], [CHR 0x20],
      [CHR 0xC2, CHR 0x85], [CHR 0xC2, CHR 0xA0],
      [CHR 0xE1, CHR 0x9A, CHR 0x80],
      [CHR 0xE2, CHR 0x80, CHR 0x80], [CHR 0xE2, CHR 0x80, CHR 0x81],
      [CHR 0xE2, CHR 0x80, CHR 0x82], [CHR 0xE2, CHR 0x80, CHR 0x83],
      [CHR 0xE2, CHR 0x80, CHR 0x84], [CHR 0xE2, CHR 0x80, CHR 0x85],
      [CHR 0xE2, CHR 0x80, CHR 0x86], [CHR 0xE2, CHR 0x80, CHR 0x87],
      [CHR 0xE2, CHR 0x80, CHR 0x88], [CHR 0xE2, CHR 0x80, CHR 0x89],
      [CHR 0xE2, CHR 0x80, CHR 0x8A],
      [CHR 0xE2, CHR 0x80, CHR 0xA8], [CHR 0xE2, CHR 0x80, CHR 0xA9],
      [CHR 0xE2, CHR 0x80, CHR 0xAF],
      [CHR 0xE2, CHR 0x81, CHR 0x9F],
      [CHR 0xE3, CHR 0x80, CHR 0x80]]"

fun leadingRune :: "string list \<Rightarrow> string \<Rightarrow> string option" where
  \<comment> \<open>the first of the given encodings that the string starts with\<close>
  "leadingRune [] s = None"
| "leadingRune (t # ts) s =
     (if t \<noteq> [] \<and> prefix t s then Some t else leadingRune ts s)"

function stripLeading :: "string list \<Rightarrow> string \<Rightarrow> string" where
  \<comment> \<open>\<^verbatim>\<open>strings.TrimLeftFunc\<close>: decode rune after rune from the left and stop at the first
      one that is not in the set (an invalid byte decodes to U+FFFD, which is not).\<close>
  "stripLeading ts s =
     (case leadingRune ts s of
        None \<Rightarrow> s
      | Some t \<Rightarrow> stripLeading ts (drop (length t) s))"
  by pat_completeness auto
termination
proof (relation "measure (\<lambda>(ts, s). length s)")
  show "wf (measure (\<lambda>(ts, s). length s))" by simp
next
  fix ts :: "string list" and s t :: string
  assume a: "leadingRune ts s = Some t"
  have "leadingRune us s = Some t \<Longrightarrow> t \<noteq> [] \<and> prefix t s" for us
    by (induction us) (auto split: if_splits)
  with a have "t \<noteq> []" and "prefix t s" by blast+
  then have "length (drop (length t) s) < length s"
    by (cases s) (auto simp: prefix_def)
  then show "((ts, drop (length t) s), (ts, s)) \<in> measure (\<lambda>(ts, s). length s)"
    by simp
qed

declare stripLeading.simps [simp del]

definition TrimLeft :: "string \<Rightarrow> string" where
  "TrimLeft s = stripLeading spaceRunes s"

definition TrimRight :: "string \<Rightarrow> string" where
  \<comment> \<open>\<^verbatim>\<open>strings.TrimRightFunc\<close> decodes the last rune again and again
      (\<^verbatim>\<open>utf8.DecodeLastRuneInString\<close>): the mirror image of the scan from the left.\<close>
  "TrimRight s = rev (stripLeading (map rev spaceRunes) (rev s))"

definition TrimSpace :: "string \<Rightarrow> string" where
  "TrimSpace s = TrimRight (TrimLeft s)"

fun Contains :: "string \<Rightarrow> string \<Rightarrow> bool" where
  \<comment> \<open>\<^verbatim>\<open>strings.Contains(s, substr)\<close>: \<open>substr\<close> occurs in \<open>s\<close> at some offset\<close>
  "Contains [] substr = (substr = [])"
| "Contains (c # cs) substr = (prefix substr (c # cs) \<or> Contains cs substr)"

fun Split :: "string \<Rightarrow> char \<Rightarrow> string list" where
  \<comment> \<open>\<^verbatim>\<open>strings.Split(s, sep)\<close> for a separator of one byte (the code only splits at
      \<^verbatim>\<open>"\n"\<close>): one piece more than there are separators, so \<^verbatim>\<open>[""]\<close> for \<^verbatim>\<open>""\<close>.
      The result is never empty, so the last case below is never taken.\<close>
  "Split [] sep = [[]]"
| "Split (c # cs) sep =
     (if c = sep then [] # Split cs sep
      else (case Split cs sep of
              piece # pieces \<Rightarrow> (c # piece) # pieces
            | [] \<Rightarrow> [[c]]))"

section \<open>The environment: processes and files\<close>

text \<open>
  The program reaches the outside world through \<^verbatim>\<open>os/exec\<close> and \<^verbatim>\<open>os\<close>. A process
  is described by what happens when it is run: whether it can be started, how long the
  start takes (until \<^verbatim>\<open>cmd.Process\<close> is set, or until the failed start has returned and
  the timer is stopped), how long it runs if nobody kills it, its exit status, and what
  it has written to standard output and standard error by the time it ends or is killed.
  Times are in nanoseconds from the moment the timer is armed.
\<close>

record process =
  spawns :: bool
  start_time :: nat
  run_time :: int
  exit_status :: int
  combined :: string

datatype exec_error = StartError | ExitError int | SignalKilled

text \<open>
  A call either returns or the program panics. A panic in the goroutine of a timer
  cannot be recovered by the caller: the program ends there.
\<close>

datatype 'a outcome = Panic | Returns 'a

datatype errno = ENOENT | EEXIST | EISDIR | ENOTDIR | EACCES | ENOSPC | EINVAL | ENAMETOOLONG

datatype node = File string | Dir

text \<open>
  The file system is that of a POSIX system holding directories and regular files only,
  with one name for each (no symbolic or hard links, no devices), and every directory
  may be searched. A node is found under the list of names that lead to it from the
  root; the root itself is the empty list and always a directory. \<open>cwd\<close> is the working
  directory. \<open>denied\<close> holds the nodes the system refuses to create or to open for
  writing, and \<open>room\<close> is the number of bytes a write stores before the device is full.
\<close>

type_synonym path = "string list"

record world =
  exec :: "string \<Rightarrow> string list \<Rightarrow> process"
  cwd :: path
  nodes :: "path \<rightharpoonup> node"
  denied :: "path \<Rightarrow> bool"
  room :: nat

definition CombinedOutput ::
    "int \<Rightarrow> process \<Rightarrow> (string \<times> exec_error option) outcome" where
  \<comment> \<open>Lines 113 to 115: \<^verbatim>\<open>time.AfterFunc(Timeout, func() { cmd.Process.Kill() })\<close> is
      armed before \<^verbatim>\<open>cmd.CombinedOutput()\<close> starts the process and stopped after it has
      returned. If the timer fires first, \<^verbatim>\<open>cmd.Process\<close> is still nil and the call of
      \<^verbatim>\<open>Kill\<close> panics. Otherwise the error of \<^verbatim>\<open>CombinedOutput\<close> is non-nil when the
      program cannot be started, when the timer kills it, and when it exits with a status
      other than 0.\<close>
  "CombinedOutput timeout p =
     (if timeout \<le> int (start_time p) then Panic
      else if \<not> spawns p then Returns ([], Some StartError)
      else if timeout \<le> run_time p then Returns (combined p, Some SignalKilled)
      else if exit_status p \<noteq> 0 then Returns (combined p, Some (ExitError (exit_status p)))
      else Returns (combined p, None))"

text \<open>The longest name and the longest path the system takes, as on Linux.\<close>

definition NAME_MAX :: nat where
  "NAME_MAX = 255"

definition PATH_MAX :: nat where
  "PATH_MAX = 4096"

definition nodeAt :: "world \<Rightarrow> path \<Rightarrow> node option" where
  "nodeAt w k = (if k = [] then Some Dir else nodes w k)"

fun walk :: "world \<Rightarrow> path \<Rightarrow> string list \<Rightarrow> errno + path" where
  \<comment> \<open>from the directory \<open>cur\<close>, follow the names of a path that are not its last\<close>
  "walk w cur [] = Inr cur"
| "walk w cur (c # cs) =
     (if c = ''.'' then walk w cur cs
      else if c = ''..'' then walk w (butlast cur) cs
      else if NAME_MAX < length c then Inl ENAMETOOLONG
      else (case nodeAt w (cur @ [c]) of
              None \<Rightarrow> Inl ENOENT
            | Some (File content) \<Rightarrow> Inl ENOTDIR
            | Some Dir \<Rightarrow> walk w (cur @ [c]) cs))"

definition resolve :: "world \<Rightarrow> string \<Rightarrow> errno + path \<times> string" where
  \<comment> \<open>path resolution up to the last name: the directory that holds it, and the name.
      Empty names (repeated and trailing slashes) are skipped; a path of slashes only
      names the root.\<close>
  "resolve w p =
     (if p = [] then Inl ENOENT
      else if CHR 0x00 \<in> set p then Inl EINVAL
      else if PATH_MAX \<le> length p then Inl ENAMETOOLONG
      else (let names = filter (\<lambda>c. c \<noteq> []) (Split p (CHR ''/''));
                start = (if hd p = CHR ''/'' then [] else cwd w)
            in if names = [] then Inr ([], ''.'')
               else (case walk w start (butlast names) of
                       Inl e \<Rightarrow> Inl e
                     | Inr d \<Rightarrow> Inr (d, last names))))"

definition pathNode :: "world \<Rightarrow> string \<Rightarrow> errno + node" where
  \<comment> \<open>what a path names: a path with a trailing slash names a directory or nothing\<close>
  "pathNode w p =
     (case resolve w p of
        Inl e \<Rightarrow> Inl e
      | Inr (d, l) \<Rightarrow>
          if l = ''.'' \<or> l = ''..'' then Inr Dir
          else if NAME_MAX < length l then Inl ENAMETOOLONG
          else (case nodeAt w (d @ [l]) of
                  None \<Rightarrow> Inl ENOENT
                | Some Dir \<Rightarrow> Inr Dir
                | Some (File content) \<Rightarrow>
                    if last p = CHR ''/'' then Inl ENOTDIR else Inr (File content)))"

definition Stat :: "world \<Rightarrow> string \<Rightarrow> errno option" where
  \<comment> \<open>\<^verbatim>\<open>os.Stat\<close>, its error only\<close>
  "Stat w name = (case pathNode w name of Inl e \<Rightarrow> Some e | Inr n \<Rightarrow> None)"

definition IsNotExist :: "errno option \<Rightarrow> bool" where
  "IsNotExist err = (err = Some ENOENT)"

definition Mkdir :: "world \<Rightarrow> string \<Rightarrow> world \<times> errno option" where
  "Mkdir w name =
     (case resolve w name of
        Inl e \<Rightarrow> (w, Some e)
      | Inr (d, l) \<Rightarrow>
          if l = ''.'' \<or> l = ''..'' then (w, Some EEXIST)
          else if NAME_MAX < length l then (w, Some ENAMETOOLONG)
          else if nodeAt w (d @ [l]) \<noteq> None then (w, Some EEXIST)
          else if denied w (d @ [l]) then (w, Some EACCES)
          else (w\<lparr>nodes := (nodes w)(d @ [l] \<mapsto> Dir)\<rparr>, None))"

definition Create :: "world \<Rightarrow> string \<Rightarrow> world \<times> (errno + path)" where
  \<comment> \<open>\<^verbatim>\<open>os.Create\<close>: open for reading and writing, create if absent, truncate if
      present. A path that ends in a slash, in \<^verbatim>\<open>.\<close> or in \<^verbatim>\<open>..\<close> is refused as a
      directory, as Linux does. The file returned is the node it has opened.\<close>
  "Create w name =
     (case resolve w name of
        Inl e \<Rightarrow> (w, Inl e)
      | Inr (d, l) \<Rightarrow>
          if l = ''.'' \<or> l = ''..'' \<or> last name = CHR ''/'' then (w, Inl EISDIR)
          else if NAME_MAX < length l then (w, Inl ENAMETOOLONG)
          else if nodeAt w (d @ [l]) = Some Dir then (w, Inl EISDIR)
          else if denied w (d @ [l]) then (w, Inl EACCES)
          else (w\<lparr>nodes := (nodes w)(d @ [l] \<mapsto> File [])\<rparr>, Inr (d @ [l])))"

definition Write :: "world \<Rightarrow> path \<Rightarrow> string \<Rightarrow> world \<times> errno option" where
  \<comment> \<open>\<^verbatim>\<open>file.Write\<close> on the file just created: a short write is an error\<close>
  "Write w file b =
     (if length b \<le> room w then (w\<lparr>nodes := (nodes w)(file \<mapsto> File b)\<rparr>, None)
      else (w\<lparr>nodes := (nodes w)(file \<mapsto> File (take (room w) b))\<rparr>, Some ENOSPC))"

section \<open>Package vergen\<close>

definition DefaultPkgName :: string where
  "DefaultPkgName = ''version''"

definition DefaultDirtyString :: string where
  "DefaultDirtyString = ''+''"

definition DefaultTimeout :: int where
  \<comment> \<open>\<^verbatim>\<open>15 * time.Second\<close>, in nanoseconds\<close>
  "DefaultTimeout = 15 * 1000000000"

text \<open>The package-level variables, read by every run and written by none.\<close>

record globals =
  DirtyString :: string
  IgnoreFiles :: "string list"
  Timeout :: int

definition defaults :: globals where
  "defaults = \<lparr>DirtyString = DefaultDirtyString, IgnoreFiles = [''version.go''],
     Timeout = DefaultTimeout\<rparr>"

record versionData =
  describeTags :: string
  commit :: string
  dirty :: bool

text \<open>
  Errors returned by \<^verbatim>\<open>CreateFile\<close>: \<open>HashError e\<close> stands for
  \<^verbatim>\<open>errors.New("Could not run 'git rev-parse HEAD' to get commit hash. Error: " + err.Error())\<close>,
  \<open>IOError e\<close> for the error of \<^verbatim>\<open>os.Create\<close> or \<^verbatim>\<open>file.Write\<close>.
\<close>

datatype error = HashError exec_error | IOError errno

definition runGitSingleLineReturn ::
    "globals \<Rightarrow> world \<Rightarrow> string \<Rightarrow> string list \<Rightarrow> (string \<times> exec_error option) outcome" where
  "runGitSingleLineReturn g w command args =
     (case CombinedOutput (Timeout g) (exec w command args) of
        Panic \<Rightarrow> Panic
      | Returns (out, Some err) \<Rightarrow> Returns ([], Some err)
      | Returns (out, None) \<Rightarrow> Returns (TrimSpace out, None))"

definition fileText :: "versionData \<Rightarrow> string" where
  \<comment> \<open>the \<^verbatim>\<open>fmt.Sprintf\<close> of \<^verbatim>\<open>writeVersionFile\<close>: the template with \<^verbatim>\<open>DefaultPkgName\<close>,
      \<^verbatim>\<open>data.describeTags\<close>, \<^verbatim>\<open>data.commit\<close> and \<^verbatim>\<open>!data.dirty\<close> in place of its
      verbs \<^verbatim>\<open>%s\<close>, \<^verbatim>\<open>%s\<close>, \<^verbatim>\<open>%s\<close>, \<^verbatim>\<open>%v\<close>\<close>
  "fileText data =
     ''package '' @ DefaultPkgName @ [CHR 0x0A] @
     ''// auto generated by github.com/Akagi201/utils-go/vergen'' @ [CHR 0x0A] @
     ''const ('' @ [CHR 0x0A] @
     [CHR 0x09] @ ''VgVersion   = '' @ [CHR 0x22] @ describeTags data @ [CHR 0x22, CHR 0x0A] @
     [CHR 0x09] @ ''VgHash      = '' @ [CHR 0x22] @ commit data @ [CHR 0x22, CHR 0x0A] @
     [CHR 0x09] @ ''VgClean     = '' @ (if \<not> dirty data then ''true'' else ''false'') @ [CHR 0x0A] @
     '')'' @ [CHR 0x0A]"

definition writeVersionFile :: "world \<Rightarrow> string \<Rightarrow> versionData \<Rightarrow> world \<times> error option" where
  "writeVersionFile w filename data =
     (let w1 = (if IsNotExist (Stat w DefaultPkgName) then fst (Mkdir w DefaultPkgName) else w)
      in case Create w1 filename of
           (w2, Inl err) \<Rightarrow> (w2, Some (IOError err))
         | (w2, Inr file) \<Rightarrow>
             (case Write w2 file (fileText data) of
                (w3, err) \<Rightarrow> (w3, map_option IOError err)))"

definition diffIndexLines :: "string \<Rightarrow> string list" where
  \<comment> \<open>lines 78 to 81 of \<^verbatim>\<open>CreateFile\<close>: a nil slice unless the trimmed listing is
      non-empty\<close>
  "diffIndexLines diffIndex =
     (if TrimSpace diffIndex \<noteq> [] then Split (TrimSpace diffIndex) (CHR 0x0A) else [])"

fun countMatches :: "string \<Rightarrow> string list \<Rightarrow> nat \<Rightarrow> nat" where
  \<comment> \<open>the inner loop over \<^verbatim>\<open>IgnoreFiles\<close>, from the current value of \<^verbatim>\<open>matches\<close>\<close>
  "countMatches v [] matches = matches"
| "countMatches v (v2 # rest) matches =
     countMatches v rest (if Contains v v2 then matches + 1 else matches)"

fun uncommitted :: "string list \<Rightarrow> string list \<Rightarrow> bool \<times> nat" where
  \<comment> \<open>the loop labelled \<^verbatim>\<open>UNCOMMITTED\<close>: the final \<^verbatim>\<open>uncommittedChanges\<close>, and the
      number of lines the loop has looked at when it ends\<close>
  "uncommitted ignore [] = (False, 0)"
| "uncommitted ignore (v # vs) =
     (if countMatches v ignore 0 = 0 then (True, 1)
      else (case uncommitted ignore vs of (u, n) \<Rightarrow> (u, Suc n)))"

text \<open>
  \<^verbatim>\<open>CreateFile\<close> runs the three git commands in order, scans the listing and calls the
  renderer. A panic in one of the runs ends the program before anything is written.
  The three \<^verbatim>\<open>log.Printf\<close> calls write to the standard error stream of the program only
  and are left out.
\<close>

definition CreateFile ::
    "globals \<Rightarrow> world \<Rightarrow> string \<Rightarrow> (world \<times> error option) outcome" where
  "CreateFile g w filename =
     (case runGitSingleLineReturn g w ''git'' [''describe'', ''--tags''] of
        Panic \<Rightarrow> Panic
      | Returns (version, err1) \<Rightarrow>
          (let version = (if err1 \<noteq> None then ''0.1.0'' else version) in
           (case runGitSingleLineReturn g w ''git'' [''rev-parse'', ''HEAD''] of
              Panic \<Rightarrow> Panic
            | Returns (hash, Some err) \<Rightarrow> Returns (w, Some (HashError err))
            | Returns (hash, None) \<Rightarrow>
                (case runGitSingleLineReturn g w ''git'' [''diff-index'', ''HEAD''] of
                   Panic \<Rightarrow> Panic
                 | Returns (diffIndex, err3) \<Rightarrow>
                     (let uncommittedChanges =
                            fst (uncommitted (IgnoreFiles g) (diffIndexLines diffIndex));
                          version =
                            (if uncommittedChanges then version @ DirtyString g
                             else version)
                      in Returns (writeVersionFile w filename
                           \<lparr>describeTags = version, commit = hash,
                            dirty = uncommittedChanges\<rparr>))))))"

definition Create_default :: "globals \<Rightarrow> world \<Rightarrow> (world \<times> error option) outcome" where
  \<comment> \<open>\<^verbatim>\<open>Create()\<close>\<close>
  "Create_default g w = CreateFile g w (DefaultPkgName @ ''/'' @ DefaultPkgName @ ''.go'')"

section \<open>Example runs\<close>

definition finished :: "string \<Rightarrow> process" where
  \<comment> \<open>a process that is started within half a millisecond and exits with status 0
      after a millisecond\<close>
  "finished out = \<lparr>spawns = True, start_time = 500000, run_time = 1000000,
     exit_status = 0, combined = out\<rparr>"

definition failed :: "int \<Rightarrow> string \<Rightarrow> process" where
  "failed st out = \<lparr>spawns = True, start_time = 500000, run_time = 1000000,
     exit_status = st, combined = out\<rparr>"

definition hung :: "string \<Rightarrow> process" where
  \<comment> \<open>a process still running after a minute\<close>
  "hung out = \<lparr>spawns = True, start_time = 500000, run_time = 60 * 1000000000,
     exit_status = 0, combined = out\<rparr>"

definition repo :: "process \<Rightarrow> process \<Rightarrow> process \<Rightarrow> world" where
  \<comment> \<open>an empty working directory \<^verbatim>\<open>/work\<close> in which the three git commands behave as
      given\<close>
  "repo describe revparse diffindex =
     \<lparr>exec = (\<lambda>command args.
          if args = [''describe'', ''--tags''] then describe
          else if args = [''rev-parse'', ''HEAD''] then revparse
          else diffindex),
      cwd = [''work''],
      nodes = [[''work''] \<mapsto> Dir], denied = (\<lambda>k. False), room = 4096\<rparr>"

section \<open>Facts about trimming\<close>

lemma leadingRune_Some:
  "leadingRune ts s = Some t \<Longrightarrow> t \<in> set ts \<and> t \<noteq> [] \<and> prefix t s"
  by (induction ts) (auto split: if_splits)

lemma leadingRune_None:
  "leadingRune ts s = None \<longleftrightarrow> (\<forall>t\<in>set ts. t = [] \<or> \<not> prefix t s)"
  by (induction ts) auto

lemma leadingRune_hit:
  assumes free: "\<forall>t\<in>set ts. \<forall>u\<in>set ts. prefix t u \<longrightarrow> t = u"
    and t: "t \<in> set ts" "t \<noteq> []"
  shows "leadingRune ts (t @ s) = Some t"
proof (cases "leadingRune ts (t @ s)")
  case None
  with t show ?thesis by (auto simp: leadingRune_None)
next
  case (Some u)
  then have u: "u \<in> set ts" "prefix u (t @ s)"
    by (auto dest: leadingRune_Some)
  have "prefix t (t @ s)" by simp
  with u(2) have "prefix u t \<or> prefix t u"
    by (rule prefix_same_cases)
  with free t(1) u(1) have "u = t" by blast
  with Some show ?thesis by simp
qed

lemma stripLeading_token:
  assumes "\<forall>t\<in>set ts. \<forall>u\<in>set ts. prefix t u \<longrightarrow> t = u"
    and "t \<in> set ts"
  shows "stripLeading ts (t @ s) = stripLeading ts s"
proof (cases "t = []")
  case True
  then show ?thesis by simp
next
  case False
  with assms have "leadingRune ts (t @ s) = Some t"
    by (simp add: leadingRune_hit)
  then show ?thesis
    by (subst stripLeading.simps) simp
qed

lemma stripLeading_concat:
  assumes "\<forall>t\<in>set ts. \<forall>u\<in>set ts. prefix t u \<longrightarrow> t = u"
    and "set us \<subseteq> set ts"
  shows "stripLeading ts (concat us @ s) = stripLeading ts s"
  using assms(2)
proof (induction us)
  case Nil
  then show ?case by simp
next
  case (Cons u us)
  then have "u \<in> set ts" and "set us \<subseteq> set ts" by auto
  with Cons.IH assms(1) show ?case
    by (simp add: stripLeading_token)
qed

lemma stripLeading_Nil: "stripLeading ts [] = []"
proof -
  have "leadingRune ts [] = None"
    by (simp add: leadingRune_None)
  then show ?thesis
    by (subst stripLeading.simps) simp
qed

lemma stripLeading_split:
  "\<exists>us. set us \<subseteq> set ts \<and> s = concat us @ stripLeading ts s"
proof (induction ts s rule: stripLeading.induct)
  case (1 ts s)
  show ?case
  proof (cases "leadingRune ts s")
    case None
    then have "stripLeading ts s = s"
      by (subst stripLeading.simps) simp
    then have "set [] \<subseteq> set ts \<and> s = concat [] @ stripLeading ts s" by simp
    then show ?thesis by blast
  next
    case (Some t)
    then have t: "t \<in> set ts" "prefix t s"
      by (auto dest: leadingRune_Some)
    from Some have eq: "stripLeading ts s = stripLeading ts (drop (length t) s)"
      by (subst stripLeading.simps) simp
    from "1.IH" [OF Some] obtain us where
      us: "set us \<subseteq> set ts" "drop (length t) s = concat us @ stripLeading ts (drop (length t) s)"
      by blast
    from t(2) have "s = t @ drop (length t) s"
      by (auto simp: prefix_def)
    with us(2) eq have "s = concat (t # us) @ stripLeading ts s"
      by simp
    moreover from t(1) us(1) have "set (t # us) \<subseteq> set ts" by simp
    ultimately show ?thesis by blast
  qed
qed

lemma stripLeading_done: "leadingRune ts (stripLeading ts s) = None"
proof (induction ts s rule: stripLeading.induct)
  case (1 ts s)
  show ?case
  proof (cases "leadingRune ts s")
    case None
    then have "stripLeading ts s = s"
      by (subst stripLeading.simps) simp
    with None show ?thesis by simp
  next
    case (Some t)
    then have "stripLeading ts s = stripLeading ts (drop (length t) s)"
      by (subst stripLeading.simps) simp
    with "1.IH" [OF Some] show ?thesis by simp
  qed
qed

lemma spaceRunes_nonempty: "[] \<notin> set spaceRunes"
  by (simp add: spaceRunes_def)

lemma spaceRunes_prefix_free:
  "\<forall>t\<in>set spaceRunes. \<forall>u\<in>set spaceRunes. prefix t u \<longrightarrow> t = u"
  by (simp add: spaceRunes_def)

lemma TrimLeft_split:
  "\<exists>ls. set ls \<subseteq> set spaceRunes \<and> s = concat ls @ TrimLeft s"
  unfolding TrimLeft_def by (rule stripLeading_split)

lemma TrimRight_split:
  "\<exists>rs. set rs \<subseteq> set spaceRunes \<and> s = TrimRight s @ concat rs"
proof -
  obtain us where us: "set us \<subseteq> set (map rev spaceRunes)"
    and eq: "rev s = concat us @ stripLeading (map rev spaceRunes) (rev s)"
    using stripLeading_split [of "map rev spaceRunes" "rev s"] by blast
  have "s = rev (rev s)" by simp
  also have "\<dots> = TrimRight s @ rev (concat us)"
    by (subst eq) (simp add: TrimRight_def)
  also have "rev (concat us) = concat (map rev (rev us))"
    by (rule rev_concat)
  finally have "s = TrimRight s @ concat (map rev (rev us))" .
  moreover from us have "set (map rev (rev us)) \<subseteq> set spaceRunes"
    by force
  ultimately show ?thesis by blast
qed

lemma TrimLeft_no_space: "t \<in> set spaceRunes \<Longrightarrow> \<not> prefix t (TrimLeft s)"
  using stripLeading_done [of spaceRunes s] spaceRunes_nonempty
  by (auto simp: TrimLeft_def leadingRune_None)

lemma TrimRight_no_space: "t \<in> set spaceRunes \<Longrightarrow> \<not> suffix t (TrimRight s)"
proof
  assume t: "t \<in> set spaceRunes" and suf: "suffix t (TrimRight s)"
  from t spaceRunes_nonempty have ne: "rev t \<noteq> []" by auto
  from t have "rev t \<in> set (map rev spaceRunes)" by simp
  with stripLeading_done [of "map rev spaceRunes" "rev s"] ne
  have "\<not> prefix (rev t) (stripLeading (map rev spaceRunes) (rev s))"
    by (auto simp: leadingRune_None)
  with suf show False
    by (simp add: TrimRight_def suffix_to_prefix)
qed

lemma TrimSpace_split:
  "\<exists>ls rs. set ls \<subseteq> set spaceRunes \<and> set rs \<subseteq> set spaceRunes
     \<and> s = concat ls @ TrimSpace s @ concat rs"
proof -
  obtain ls where ls: "set ls \<subseteq> set spaceRunes" "s = concat ls @ TrimLeft s"
    using TrimLeft_split by blast
  obtain rs where rs: "set rs \<subseteq> set spaceRunes" "TrimLeft s = TrimRight (TrimLeft s) @ concat rs"
    using TrimRight_split by blast
  from ls(2) rs(2) have "s = concat ls @ TrimSpace s @ concat rs"
    by (simp add: TrimSpace_def)
  with ls(1) rs(1) show ?thesis by blast
qed

lemma TrimSpace_no_space:
  assumes "t \<in> set spaceRunes"
  shows "\<not> prefix t (TrimSpace s)" and "\<not> suffix t (TrimSpace s)"
proof -
  obtain rs where "TrimLeft s = TrimRight (TrimLeft s) @ concat rs"
    using TrimRight_split by blast
  then have "prefix (TrimSpace s) (TrimLeft s)"
    by (metis TrimSpace_def prefixI)
  then show "\<not> prefix t (TrimSpace s)"
    using TrimLeft_no_space [OF assms, of s] by (auto dest: prefix_order.trans)
  show "\<not> suffix t (TrimSpace s)"
    unfolding TrimSpace_def by (rule TrimRight_no_space [OF assms])
qed

lemma TrimSpace_whitespace:
  assumes "set us \<subseteq> set spaceRunes"
  shows "TrimSpace (concat us) = []"
proof -
  have "TrimLeft (concat us @ []) = TrimLeft []"
    unfolding TrimLeft_def
    by (rule stripLeading_concat [OF spaceRunes_prefix_free assms])
  then have "TrimLeft (concat us) = []"
    by (simp add: TrimLeft_def stripLeading_Nil)
  then show ?thesis
    by (simp add: TrimSpace_def TrimRight_def stripLeading_Nil)
qed

lemma TrimSpace_empty_iff:
  "TrimSpace s = [] \<longleftrightarrow> (\<exists>us. set us \<subseteq> set spaceRunes \<and> s = concat us)"
proof
  assume e: "TrimSpace s = []"
  obtain ls rs where "set ls \<subseteq> set spaceRunes" "set rs \<subseteq> set spaceRunes"
    "s = concat ls @ TrimSpace s @ concat rs"
    using TrimSpace_split by blast
  with e have "set (ls @ rs) \<subseteq> set spaceRunes \<and> s = concat (ls @ rs)" by simp
  then show "\<exists>us. set us \<subseteq> set spaceRunes \<and> s = concat us" by blast
next
  assume "\<exists>us. set us \<subseteq> set spaceRunes \<and> s = concat us"
  then show "TrimSpace s = []" by (auto simp: TrimSpace_whitespace)
qed

section \<open>Facts about the string functions and the scan\<close>

lemma Contains_iff: "Contains s substr \<longleftrightarrow> (\<exists>p q. s = p @ substr @ q)"
proof (induction s)
  case Nil
  then show ?case by auto
next
  case (Cons c cs)
  show ?case
  proof
    assume "Contains (c # cs) substr"
    then consider "prefix substr (c # cs)" | "Contains cs substr" by auto
    then show "\<exists>p q. c # cs = p @ substr @ q"
    proof cases
      case 1
      then obtain q where "c # cs = substr @ q" by (auto simp: prefix_def)
      then have "c # cs = [] @ substr @ q" by simp
      then show ?thesis by blast
    next
      case 2
      with Cons.IH obtain p q where "cs = p @ substr @ q" by blast
      then have "c # cs = (c # p) @ substr @ q" by simp
      then show ?thesis by blast
    qed
  next
    assume "\<exists>p q. c # cs = p @ substr @ q"
    then obtain p q where pq: "c # cs = p @ substr @ q" by blast
    show "Contains (c # cs) substr"
    proof (cases p)
      case Nil
      with pq have "prefix substr (c # cs)" by (simp add: prefix_def)
      then show ?thesis by simp
    next
      case (Cons a p')
      with pq have "cs = p' @ substr @ q" by simp
      with Cons.IH have "Contains cs substr" by blast
      then show ?thesis by simp
    qed
  qed
qed

lemma Contains_empty: "Contains s []"
  by (cases s) simp_all

lemma countMatches_eq: "countMatches v ig m = m + length (filter (Contains v) ig)"
  by (induction ig arbitrary: m) auto

lemma countMatches_zero_iff:
  "countMatches v ig 0 = 0 \<longleftrightarrow> (\<forall>v2\<in>set ig. \<not> Contains v v2)"
  by (simp add: countMatches_eq filter_empty_conv)

lemma uncommitted_clean:
  "\<forall>v\<in>set ls. \<exists>v2\<in>set ig. Contains v v2 \<Longrightarrow> uncommitted ig ls = (False, length ls)"
  by (induction ls) (auto simp: countMatches_zero_iff)

lemma uncommitted_dirty:
  "\<exists>v\<in>set ls. \<forall>v2\<in>set ig. \<not> Contains v v2 \<Longrightarrow>
     uncommitted ig ls =
       (True, Suc (length (takeWhile (\<lambda>v. \<exists>v2\<in>set ig. Contains v v2) ls)))"
proof (induction ls)
  case Nil
  then show ?case by simp
next
  case (Cons v vs)
  show ?case
  proof (cases "countMatches v ig 0 = 0")
    case True
    then show ?thesis by (simp add: countMatches_zero_iff)
  next
    case False
    then have m: "\<exists>v2\<in>set ig. Contains v v2" by (simp add: countMatches_zero_iff)
    with Cons.prems have "\<exists>v\<in>set vs. \<forall>v2\<in>set ig. \<not> Contains v v2" by auto
    with Cons.IH m False show ?thesis by simp
  qed
qed

lemmas run_defs = stripLeading.simps CreateFile_def runGitSingleLineReturn_def CombinedOutput_def
  diffIndexLines_def TrimSpace_def TrimLeft_def TrimRight_def
  spaceRunes_def repo_def finished_def failed_def hung_def defaults_def
  DefaultDirtyString_def DefaultTimeout_def

lemmas os_defs = writeVersionFile_def DefaultPkgName_def Stat_def IsNotExist_def
  Mkdir_def Create_def Write_def pathNode_def resolve_def nodeAt_def NAME_MAX_def
  PATH_MAX_def Let_def repo_def

section \<open>Dirty-state detection\<close>

text \<open>
  C2. The lines of the listing are those of \<open>diffIndexLines\<close>. If every line contains
  some entry of the ignore list, the scan ends clean after looking at all of them; if
  some line contains no entry, the scan ends dirty, having looked at the lines up to the
  first such line and at none after it.
\<close>

theorem dirty_iff_unignored_line:
  "((\<forall>v\<in>set (diffIndexLines d). \<exists>v2\<in>set ignore. Contains v v2) \<longrightarrow>
      uncommitted ignore (diffIndexLines d) = (False, length (diffIndexLines d)))
   \<and> ((\<exists>v\<in>set (diffIndexLines d). \<forall>v2\<in>set ignore. \<not> Contains v v2) \<longrightarrow>
      uncommitted ignore (diffIndexLines d) =
        (True, Suc (length (takeWhile (\<lambda>v. \<exists>v2\<in>set ignore. Contains v v2)
                              (diffIndexLines d)))))"
  using uncommitted_clean [of "diffIndexLines d" ignore]
    uncommitted_dirty [of "diffIndexLines d" ignore]
  by blast

theorem dirty_iff_unignored_line_witness:
  "uncommitted [''version.go'']
        (diffIndexLines (''M version/version.go'' @ [CHR 0x0A] @ ''M old/version.go''))
      = (False, 2)
   \<and> uncommitted [''version.go'']
        (diffIndexLines (''M version/version.go'' @ [CHR 0x0A] @ ''M main.go''
                          @ [CHR 0x0A] @ ''M util.go''))
      = (True, 2)"
proof -
  have l1: "diffIndexLines (''M version/version.go'' @ [CHR 0x0A] @ ''M old/version.go'')
      = [''M version/version.go'', ''M old/version.go'']"
    by (simp add: run_defs)
  have l2: "diffIndexLines (''M version/version.go'' @ [CHR 0x0A] @ ''M main.go''
                          @ [CHR 0x0A] @ ''M util.go'')
      = [''M version/version.go'', ''M main.go'', ''M util.go'']"
    by (simp add: run_defs)
  have h1: "\<forall>v\<in>set (diffIndexLines (''M version/version.go'' @ [CHR 0x0A] @ ''M old/version.go'')).
       \<exists>v2\<in>set [''version.go'']. Contains v v2"
    unfolding l1 by simp
  have h2: "\<exists>v\<in>set (diffIndexLines (''M version/version.go'' @ [CHR 0x0A] @ ''M main.go''
                                @ [CHR 0x0A] @ ''M util.go'')).
       \<forall>v2\<in>set [''version.go'']. \<not> Contains v v2"
    unfolding l2 by simp
  from dirty_iff_unignored_line
    [of "''M version/version.go'' @ [CHR 0x0A] @ ''M old/version.go''" "[''version.go'']"] h1
  have r1: "uncommitted [''version.go'']
        (diffIndexLines (''M version/version.go'' @ [CHR 0x0A] @ ''M old/version.go''))
      = (False, length (diffIndexLines
           (''M version/version.go'' @ [CHR 0x0A] @ ''M old/version.go'')))"
    by blast
  from dirty_iff_unignored_line
    [of "''M version/version.go'' @ [CHR 0x0A] @ ''M main.go'' @ [CHR 0x0A] @ ''M util.go''"
        "[''version.go'']"] h2
  have r2: "uncommitted [''version.go'']
        (diffIndexLines (''M version/version.go'' @ [CHR 0x0A] @ ''M main.go''
                          @ [CHR 0x0A] @ ''M util.go''))
      = (True, Suc (length (takeWhile (\<lambda>v. \<exists>v2\<in>set [''version.go'']. Contains v v2)
          (diffIndexLines (''M version/version.go'' @ [CHR 0x0A] @ ''M main.go''
                          @ [CHR 0x0A] @ ''M util.go'')))))"
    by blast
  have r1': "uncommitted [''version.go'']
        (diffIndexLines (''M version/version.go'' @ [CHR 0x0A] @ ''M old/version.go''))
      = (False, 2)"
    using r1 unfolding l1 by simp
  have r2': "uncommitted [''version.go'']
        (diffIndexLines (''M version/version.go'' @ [CHR 0x0A] @ ''M main.go''
                          @ [CHR 0x0A] @ ''M util.go'')) = (True, 2)"
    using r2 unfolding l2 by simp
  from r1' r2' show ?thesis by blast
qed

text \<open>
  C10. An ignore list that holds the empty string matches every line, so every listing
  is reported clean.
\<close>

theorem empty_ignore_entry_always_clean:
  assumes "[] \<in> set ignore"
  shows "(\<forall>v. \<exists>v2\<in>set ignore. Contains v v2)
         \<and> fst (uncommitted ignore (diffIndexLines d)) = False"
proof -
  have a: "\<forall>v. \<exists>v2\<in>set ignore. Contains v v2"
    using assms Contains_empty by blast
  then have "uncommitted ignore (diffIndexLines d) = (False, length (diffIndexLines d))"
    by (simp add: uncommitted_clean)
  with a show ?thesis by simp
qed

theorem empty_ignore_entry_always_clean_witness:
  "[] \<in> set [''version.go'', []]
   \<and> fst (uncommitted [''version.go'', []]
            (diffIndexLines (''M main.go'' @ [CHR 0x0A] @ ''M util.go''))) = False"
proof -
  have h: "[] \<in> set [''version.go'', []]" by simp
  from empty_ignore_entry_always_clean [OF h, of "''M main.go'' @ [CHR 0x0A] @ ''M util.go''"] h
  show ?thesis by blast
qed

text \<open>
  C3. A listing that is empty or made of white space only (a concatenation of white-space
  runes) gives no line at all, where splitting the trimmed text would give one empty
  line, and the scan over no line ends clean, whatever the ignore list.
\<close>

theorem whitespace_listing_is_clean:
  assumes "set us \<subseteq> set spaceRunes"
  shows "diffIndexLines (concat us) = []
       \<and> Split (TrimSpace (concat us)) (CHR 0x0A) = [[]]
       \<and> uncommitted ignore (diffIndexLines (concat us)) = (False, 0)"
proof -
  from assms have t: "TrimSpace (concat us) = []"
    by (rule TrimSpace_whitespace)
  then have "diffIndexLines (concat us) = []"
    by (simp add: diffIndexLines_def)
  with t show ?thesis by simp
qed

theorem whitespace_listing_is_clean_witness:
  "diffIndexLines [CHR 0x20, CHR 0x0A, CHR 0xC2, CHR 0xA0, CHR 0x09, CHR 0xE2, CHR 0x80, CHR 0x83] = []
   \<and> uncommitted [''version.go'']
        (diffIndexLines [CHR 0x20, CHR 0x0A, CHR 0xC2, CHR 0xA0, CHR 0x09,
                         CHR 0xE2, CHR 0x80, CHR 0x83]) = (False, 0)
   \<and> diffIndexLines [] = []
   \<and> uncommitted [] (diffIndexLines []) = (False, 0)"
proof -
  have h: "set [[CHR 0x20], [CHR 0x0A], [CHR 0xC2, CHR 0xA0], [CHR 0x09],
                [CHR 0xE2, CHR 0x80, CHR 0x83]] \<subseteq> set spaceRunes"
    by (simp add: spaceRunes_def)
  have e: "set ([] :: string list) \<subseteq> set spaceRunes"
    by simp
  from whitespace_listing_is_clean [OF h, of "[''version.go'']"]
    whitespace_listing_is_clean [OF e, of "[]"]
  show ?thesis by simp
qed

section \<open>Facts about the file system and the write step\<close>

lemma Split_line:
  "sep \<notin> set l \<Longrightarrow> Split (l @ sep # rest) sep = l # Split rest sep"
  by (induction l) auto

lemma fileText_layout:
  "fileText data = concat (map (\<lambda>l. l @ [CHR 0x0A])
     [''package version'',
      ''// auto generated by github.com/Akagi201/utils-go/vergen'',
      ''const ('',
      [CHR 0x09] @ ''VgVersion   = '' @ [CHR 0x22] @ describeTags data @ [CHR 0x22],
      [CHR 0x09] @ ''VgHash      = '' @ [CHR 0x22] @ commit data @ [CHR 0x22],
      [CHR 0x09] @ ''VgClean     = '' @ (if dirty data then ''false'' else ''true''),
      '')''])"
  by (simp add: fileText_def DefaultPkgName_def)

lemma walk_more_dirs:
  assumes "\<forall>k. nodeAt w k = Some Dir \<longrightarrow> nodeAt w' k = Some Dir"
  shows "walk w cur cs = Inr d \<Longrightarrow> walk w' cur cs = Inr d"
proof (induction cs arbitrary: cur)
  case Nil
  then show ?case by simp
next
  case (Cons c cs)
  show ?case
  proof (cases "c = ''.'' \<or> c = ''..'' \<or> NAME_MAX < length c")
    case True
    with Cons show ?thesis by (auto split: if_splits)
  next
    case False
    with Cons.prems have dir: "nodeAt w (cur @ [c]) = Some Dir"
      and rest: "walk w (cur @ [c]) cs = Inr d"
      by (auto split: option.splits node.splits)
    from dir assms have "nodeAt w' (cur @ [c]) = Some Dir" by blast
    with False Cons.IH [OF rest] show ?thesis by simp
  qed
qed

lemma resolve_more_dirs:
  assumes "\<forall>k. nodeAt w k = Some Dir \<longrightarrow> nodeAt w' k = Some Dir"
    and "cwd w' = cwd w"
    and "resolve w p = Inr x"
  shows "resolve w' p = Inr x"
  using assms(3) walk_more_dirs [OF assms(1)]
  unfolding resolve_def Let_def assms(2)
  by (auto split: if_splits sum.splits)

lemma resolve_DefaultPkgName: "resolve w DefaultPkgName = Inr (cwd w, DefaultPkgName)"
  by (simp add: resolve_def DefaultPkgName_def PATH_MAX_def)

lemma pathNode_DefaultPkgName:
  "pathNode w DefaultPkgName =
     (case nodeAt w (cwd w @ [DefaultPkgName]) of None \<Rightarrow> Inl ENOENT | Some n \<Rightarrow> Inr n)"
  unfolding pathNode_def resolve_DefaultPkgName
  by (simp add: DefaultPkgName_def NAME_MAX_def split: option.splits node.splits)

lemma Stat_DefaultPkgName:
  "IsNotExist (Stat w DefaultPkgName) \<longleftrightarrow> nodeAt w (cwd w @ [DefaultPkgName]) = None"
  by (simp add: IsNotExist_def Stat_def pathNode_DefaultPkgName split: option.splits)

lemma Mkdir_DefaultPkgName:
  "Mkdir w DefaultPkgName =
     (if nodeAt w (cwd w @ [DefaultPkgName]) \<noteq> None then (w, Some EEXIST)
      else if denied w (cwd w @ [DefaultPkgName]) then (w, Some EACCES)
      else (w\<lparr>nodes := (nodes w)(cwd w @ [DefaultPkgName] \<mapsto> Dir)\<rparr>, None))"
  unfolding Mkdir_def resolve_DefaultPkgName
  by (simp add: DefaultPkgName_def NAME_MAX_def)

lemma Create_failure: "Create w name = (w', Inl e) \<Longrightarrow> w' = w"
  by (auto simp: Create_def split: sum.splits if_splits option.splits node.splits)

lemma Create_success:
  assumes "Create w name = (w', Inr k)"
  shows "\<exists>d l. resolve w name = Inr (d, l) \<and> k = d @ [l] \<and> l \<noteq> ''.'' \<and> l \<noteq> ''..''
           \<and> length l \<le> NAME_MAX \<and> last name \<noteq> CHR ''/''
           \<and> nodeAt w k \<noteq> Some Dir
           \<and> w' = w\<lparr>nodes := (nodes w)(k \<mapsto> File [])\<rparr>"
  using assms
  by (auto simp: Create_def split: sum.splits if_splits option.splits node.splits)

lemma nodeAt_update:
  "k \<noteq> [] \<Longrightarrow> nodeAt (w\<lparr>nodes := (nodes w)(k \<mapsto> n)\<rparr>) j = (if j = k then Some n else nodeAt w j)"
  by (simp add: nodeAt_def)

lemma pathNode_written:
  assumes "Create w name = (w', Inr k)"
  shows "pathNode (w\<lparr>nodes := (nodes w)(k \<mapsto> File b)\<rparr>) name = Inr (File b)"
proof -
  from Create_success [OF assms] obtain d l where
    r: "resolve w name = Inr (d, l)" and k: "k = d @ [l]" and l: "l \<noteq> ''.''" "l \<noteq> ''..''"
    "length l \<le> NAME_MAX" and slash: "last name \<noteq> CHR ''/''"
    and nodir: "nodeAt w k \<noteq> Some Dir"
    by blast
  let ?w = "w\<lparr>nodes := (nodes w)(k \<mapsto> File b)\<rparr>"
  from k have ne: "k \<noteq> []" by simp
  have "\<forall>j. nodeAt w j = Some Dir \<longrightarrow> nodeAt ?w j = Some Dir"
    using nodir by (auto simp: nodeAt_update [OF ne])
  moreover have "cwd ?w = cwd w" by simp
  ultimately have "resolve ?w name = Inr (d, l)"
    using r by (rule resolve_more_dirs)
  moreover have "nodeAt ?w (d @ [l]) = Some (File b)"
    using ne by (simp add: nodeAt_update k)
  ultimately show ?thesis
    using l slash by (simp add: pathNode_def)
qed

lemma Write_world:
  "fst (Write w file b) = w\<lparr>nodes := (nodes w)(file \<mapsto> File (take (room w) b))\<rparr>"
  by (simp add: Write_def)

lemma Write_ok: "snd (Write w file b) = None \<longleftrightarrow> length b \<le> room w"
  by (simp add: Write_def)

lemma writeVersionFile_unfold:
  assumes "w1 = (if IsNotExist (Stat w DefaultPkgName) then fst (Mkdir w DefaultPkgName) else w)"
  shows "writeVersionFile w filename data =
     (case snd (Create w1 filename) of
        Inl err \<Rightarrow> (w1, Some (IOError err))
      | Inr file \<Rightarrow>
          (fst (Write (fst (Create w1 filename)) file (fileText data)),
           map_option IOError (snd (Write (fst (Create w1 filename)) file (fileText data)))))"
proof (cases "Create w1 filename")
  case (Pair w2 res)
  show ?thesis
  proof (cases res)
    case (Inl e)
    with Pair have "w2 = w1" by (auto dest: Create_failure)
    with Pair Inl show ?thesis
      unfolding writeVersionFile_def Let_def assms [symmetric] by simp
  next
    case (Inr h)
    with Pair show ?thesis
      unfolding writeVersionFile_def Let_def assms [symmetric]
      by (simp split: prod.splits)
  qed
qed

lemma writeVersionFile_success:
  assumes "writeVersionFile w filename data = (w', None)"
  shows "pathNode w' filename = Inr (File (fileText data))"
proof -
  define w1 where
    "w1 = (if IsNotExist (Stat w DefaultPkgName) then fst (Mkdir w DefaultPkgName) else w)"
  note u = writeVersionFile_unfold [OF w1_def, of filename data]
  from assms u obtain k where c: "snd (Create w1 filename) = Inr k"
    by (cases "snd (Create w1 filename)") auto
  then obtain w2 where c2: "Create w1 filename = (w2, Inr k)"
    by (cases "Create w1 filename") simp
  from assms u c c2 have wr: "snd (Write w2 k (fileText data)) = None"
    and w': "w' = fst (Write w2 k (fileText data))"
    by auto
  from Create_success [OF c2] have w2: "w2 = w1\<lparr>nodes := (nodes w1)(k \<mapsto> File [])\<rparr>"
    by blast
  from wr have "length (fileText data) \<le> room w2"
    by (simp add: Write_ok)
  then have "w' = w1\<lparr>nodes := (nodes w1)(k \<mapsto> File (fileText data))\<rparr>"
    unfolding w' Write_world by (simp add: w2)
  then show ?thesis
    using pathNode_written [OF c2] by simp
qed

section \<open>The orchestrator\<close>

lemma diffIndexLines_empty: "diffIndexLines [] = []"
  by (simp add: diffIndexLines_def TrimSpace_def TrimLeft_def TrimRight_def stripLeading_Nil)

text \<open>
  C1. If \<^verbatim>\<open>git rev-parse HEAD\<close> fails, \<^verbatim>\<open>CreateFile\<close> returns an error and leaves the
  world as it found it: no file is created, truncated or written. The hash is looked
  up once \<^verbatim>\<open>git describe --tags\<close> has returned, with or without an error.
\<close>

theorem hash_failure_writes_nothing:
  assumes "runGitSingleLineReturn g w ''git'' [''describe'', ''--tags''] = Returns described"
    and "runGitSingleLineReturn g w ''git'' [''rev-parse'', ''HEAD''] = Returns (out, Some e)"
  shows "CreateFile g w filename = Returns (w, Some (HashError e))"
  using assms by (cases described) (simp add: CreateFile_def Let_def)

theorem hash_failure_writes_nothing_witness:
  "CreateFile defaults
      ((repo (finished ''v1.2.3'') (failed 128 ''fatal: bad revision'') (finished []))
         \<lparr>nodes := [[''work''] \<mapsto> Dir, [''work'', ''version''] \<mapsto> Dir,
                    [''work'', ''version'', ''version.go''] \<mapsto> File ''package version'']\<rparr>)
      ''version/version.go''
     = Returns
        ((repo (finished ''v1.2.3'') (failed 128 ''fatal: bad revision'') (finished []))
           \<lparr>nodes := [[''work''] \<mapsto> Dir, [''work'', ''version''] \<mapsto> Dir,
                      [''work'', ''version'', ''version.go''] \<mapsto> File ''package version'']\<rparr>,
         Some (HashError (ExitError 128)))
   \<and> pathNode
        ((repo (finished ''v1.2.3'') (failed 128 ''fatal: bad revision'') (finished []))
           \<lparr>nodes := [[''work''] \<mapsto> Dir, [''work'', ''version''] \<mapsto> Dir,
                      [''work'', ''version'', ''version.go''] \<mapsto> File ''package version'']\<rparr>)
        ''version/version.go''
     = Inr (File ''package version'')"
proof -
  let ?w = "(repo (finished ''v1.2.3'') (failed 128 ''fatal: bad revision'') (finished []))
         \<lparr>nodes := [[''work''] \<mapsto> Dir, [''work'', ''version''] \<mapsto> Dir,
                    [''work'', ''version'', ''version.go''] \<mapsto> File ''package version'']\<rparr>"
  have d: "runGitSingleLineReturn defaults ?w ''git'' [''describe'', ''--tags'']
      = Returns (''v1.2.3'', None)"
    by (simp add: run_defs)
  have h: "runGitSingleLineReturn defaults ?w ''git'' [''rev-parse'', ''HEAD'']
      = Returns ([], Some (ExitError 128))"
    by (simp add: run_defs)
  have p: "pathNode ?w ''version/version.go'' = Inr (File ''package version'')"
    by (simp add: os_defs)
  from hash_failure_writes_nothing [OF d h, of "''version/version.go''"] p
  show ?thesis by simp
qed

text \<open>
  C4. With the version of step 1 (the trimmed output of \<^verbatim>\<open>git describe --tags\<close>, or the
  fallback) called the tag: when the scan finds the tree dirty, the version handed to
  the renderer and written into the \<^verbatim>\<open>VgVersion\<close> line of the file is the tag followed
  by \<^verbatim>\<open>DirtyString\<close>; when it finds it clean, it is the tag itself.
\<close>

theorem version_carries_dirty_suffix:
  assumes "runGitSingleLineReturn g w ''git'' [''describe'', ''--tags''] = Returns (out, err1)"
    and "runGitSingleLineReturn g w ''git'' [''rev-parse'', ''HEAD''] = Returns (hash, None)"
    and "runGitSingleLineReturn g w ''git'' [''diff-index'', ''HEAD'']
           = Returns (diffIndex, err3)"
    and "tag = (if err1 \<noteq> None then ''0.1.0'' else out)"
    and "isDirty = fst (uncommitted (IgnoreFiles g) (diffIndexLines diffIndex))"
  shows "CreateFile g w filename =
           Returns (writeVersionFile w filename
             \<lparr>describeTags = (if isDirty then tag @ DirtyString g else tag),
              commit = hash, dirty = isDirty\<rparr>)
       \<and> (isDirty \<and> CreateFile g w filename = Returns (w', None) \<longrightarrow>
            pathNode w' filename = Inr (File (concat (map (\<lambda>l. l @ [CHR 0x0A])
              [''package version'',
               ''// auto generated by github.com/Akagi201/utils-go/vergen'',
               ''const ('',
               [CHR 0x09] @ ''VgVersion   = '' @ [CHR 0x22] @ tag @ DirtyString g @ [CHR 0x22],
               [CHR 0x09] @ ''VgHash      = '' @ [CHR 0x22] @ hash @ [CHR 0x22],
               [CHR 0x09] @ ''VgClean     = false'',
               '')'']))))
       \<and> (\<not> isDirty \<and> CreateFile g w filename = Returns (w', None) \<longrightarrow>
            pathNode w' filename = Inr (File (concat (map (\<lambda>l. l @ [CHR 0x0A])
              [''package version'',
               ''// auto generated by github.com/Akagi201/utils-go/vergen'',
               ''const ('',
               [CHR 0x09] @ ''VgVersion   = '' @ [CHR 0x22] @ tag @ [CHR 0x22],
               [CHR 0x09] @ ''VgHash      = '' @ [CHR 0x22] @ hash @ [CHR 0x22],
               [CHR 0x09] @ ''VgClean     = true'',
               '')'']))))"
proof -
  let ?data = "\<lparr>describeTags = (if isDirty then tag @ DirtyString g else tag),
              commit = hash, dirty = isDirty\<rparr>"
  have run: "CreateFile g w filename = Returns (writeVersionFile w filename ?data)"
    using assms by (simp add: CreateFile_def Let_def)
  have written: "pathNode w' filename = Inr (File (fileText ?data))"
    if "CreateFile g w filename = Returns (w', None)"
  proof -
    from that run have "writeVersionFile w filename ?data = (w', None)" by simp
    then show ?thesis by (rule writeVersionFile_success)
  qed
  from run written show ?thesis
    by (auto simp: fileText_layout)
qed

theorem version_carries_dirty_suffix_witness:
  "CreateFile (defaults\<lparr>DirtyString := ''-dirty''\<rparr>)
      (repo (finished (''v1.2.3'' @ [CHR 0x0A])) (finished (''abc123'' @ [CHR 0x0A]))
            (finished (''M changed_file.go'' @ [CHR 0x0A])))
      ''version/version.go''
    = Returns (writeVersionFile
        (repo (finished (''v1.2.3'' @ [CHR 0x0A])) (finished (''abc123'' @ [CHR 0x0A]))
              (finished (''M changed_file.go'' @ [CHR 0x0A])))
        ''version/version.go''
        \<lparr>describeTags = ''v1.2.3-dirty'', commit = ''abc123'', dirty = True\<rparr>)
   \<and> pathNode (fst (writeVersionFile
        (repo (finished (''v1.2.3'' @ [CHR 0x0A])) (finished (''abc123'' @ [CHR 0x0A]))
              (finished (''M changed_file.go'' @ [CHR 0x0A])))
        ''version/version.go''
        \<lparr>describeTags = ''v1.2.3-dirty'', commit = ''abc123'', dirty = True\<rparr>))
        ''version/version.go''
    = Inr (File (concat (map (\<lambda>l. l @ [CHR 0x0A])
              [''package version'',
               ''// auto generated by github.com/Akagi201/utils-go/vergen'',
               ''const ('',
               [CHR 0x09] @ ''VgVersion   = '' @ [CHR 0x22] @ ''v1.2.3-dirty'' @ [CHR 0x22],
               [CHR 0x09] @ ''VgHash      = '' @ [CHR 0x22] @ ''abc123'' @ [CHR 0x22],
               [CHR 0x09] @ ''VgClean     = false'',
               '')''])))
   \<and> pathNode (fst (writeVersionFile
        (repo (finished (''v1.2.3'' @ [CHR 0x0A])) (finished (''abc123'' @ [CHR 0x0A]))
              (finished (''M version/version.go'' @ [CHR 0x0A])))
        ''version/version.go''
        \<lparr>describeTags = ''v1.2.3'', commit = ''abc123'', dirty = False\<rparr>))
        ''version/version.go''
    = Inr (File (concat (map (\<lambda>l. l @ [CHR 0x0A])
              [''package version'',
               ''// auto generated by github.com/Akagi201/utils-go/vergen'',
               ''const ('',
               [CHR 0x09] @ ''VgVersion   = '' @ [CHR 0x22] @ ''v1.2.3'' @ [CHR 0x22],
               [CHR 0x09] @ ''VgHash      = '' @ [CHR 0x22] @ ''abc123'' @ [CHR 0x22],
               [CHR 0x09] @ ''VgClean     = true'',
               '')''])))"
proof -
  let ?g = "defaults\<lparr>DirtyString := ''-dirty''\<rparr>"
  let ?f = "''version/version.go''"
  let ?wd = "repo (finished (''v1.2.3'' @ [CHR 0x0A])) (finished (''abc123'' @ [CHR 0x0A]))
            (finished (''M changed_file.go'' @ [CHR 0x0A]))"
  let ?wc = "repo (finished (''v1.2.3'' @ [CHR 0x0A])) (finished (''abc123'' @ [CHR 0x0A]))
            (finished (''M version/version.go'' @ [CHR 0x0A]))"
  let ?dd = "\<lparr>describeTags = ''v1.2.3-dirty'', commit = ''abc123'', dirty = True\<rparr>"
  let ?dc = "\<lparr>describeTags = ''v1.2.3'', commit = ''abc123'', dirty = False\<rparr>"
  have d1: "runGitSingleLineReturn ?g ?wd ''git'' [''describe'', ''--tags'']
      = Returns (''v1.2.3'', None)"
    by (simp add: run_defs)
  have d2: "runGitSingleLineReturn ?g ?wd ''git'' [''rev-parse'', ''HEAD'']
      = Returns (''abc123'', None)"
    by (simp add: run_defs)
  have d3: "runGitSingleLineReturn ?g ?wd ''git'' [''diff-index'', ''HEAD'']
      = Returns (''M changed_file.go'', None)"
    by (simp add: run_defs)
  have c1: "runGitSingleLineReturn ?g ?wc ''git'' [''describe'', ''--tags'']
      = Returns (''v1.2.3'', None)"
    by (simp add: run_defs)
  have c2: "runGitSingleLineReturn ?g ?wc ''git'' [''rev-parse'', ''HEAD'']
      = Returns (''abc123'', None)"
    by (simp add: run_defs)
  have c3: "runGitSingleLineReturn ?g ?wc ''git'' [''diff-index'', ''HEAD'']
      = Returns (''M version/version.go'', None)"
    by (simp add: run_defs)
  have dd: "fst (uncommitted (IgnoreFiles ?g) (diffIndexLines ''M changed_file.go'')) = True"
    by (simp add: run_defs)
  have dc: "fst (uncommitted (IgnoreFiles ?g) (diffIndexLines ''M version/version.go'')) = False"
    by (simp add: run_defs)
  have lend: "length (fileText ?dd) \<le> 4096" and lenc: "length (fileText ?dc) \<le> 4096"
    by (simp_all add: fileText_def DefaultPkgName_def)
  have okd: "snd (writeVersionFile ?wd ?f ?dd) = None"
    using lend by (simp add: os_defs)
  have okc: "snd (writeVersionFile ?wc ?f ?dc) = None"
    using lenc by (simp add: os_defs)
  note td = version_carries_dirty_suffix [OF d1 d2 d3 refl refl,
      of ?f "fst (writeVersionFile ?wd ?f ?dd)"]
  note tc = version_carries_dirty_suffix [OF c1 c2 c3 refl refl,
      of ?f "fst (writeVersionFile ?wc ?f ?dc)"]
  from td dd have rd: "CreateFile ?g ?wd ?f = Returns (writeVersionFile ?wd ?f ?dd)"
    by (simp add: defaults_def)
  from tc dc have rc: "CreateFile ?g ?wc ?f = Returns (writeVersionFile ?wc ?f ?dc)"
    by (simp add: defaults_def)
  from rd okd have sd: "CreateFile ?g ?wd ?f = Returns (fst (writeVersionFile ?wd ?f ?dd), None)"
    by (cases "writeVersionFile ?wd ?f ?dd") simp
  from rc okc have sc: "CreateFile ?g ?wc ?f = Returns (fst (writeVersionFile ?wc ?f ?dc), None)"
    by (cases "writeVersionFile ?wc ?f ?dc") simp
  from td dd sd have pd: "pathNode (fst (writeVersionFile ?wd ?f ?dd)) ?f
    = Inr (File (concat (map (\<lambda>l. l @ [CHR 0x0A])
              [''package version'',
               ''// auto generated by github.com/Akagi201/utils-go/vergen'',
               ''const ('',
               [CHR 0x09] @ ''VgVersion   = '' @ [CHR 0x22] @ ''v1.2.3-dirty'' @ [CHR 0x22],
               [CHR 0x09] @ ''VgHash      = '' @ [CHR 0x22] @ ''abc123'' @ [CHR 0x22],
               [CHR 0x09] @ ''VgClean     = false'',
               '')''])))"
    by (simp add: defaults_def)
  from tc dc sc have pc: "pathNode (fst (writeVersionFile ?wc ?f ?dc)) ?f
    = Inr (File (concat (map (\<lambda>l. l @ [CHR 0x0A])
              [''package version'',
               ''// auto generated by github.com/Akagi201/utils-go/vergen'',
               ''const ('',
               [CHR 0x09] @ ''VgVersion   = '' @ [CHR 0x22] @ ''v1.2.3'' @ [CHR 0x22],
               [CHR 0x09] @ ''VgHash      = '' @ [CHR 0x22] @ ''abc123'' @ [CHR 0x22],
               [CHR 0x09] @ ''VgClean     = true'',
               '')''])))"
    by (simp add: defaults_def)
  from rd pd pc show ?thesis by blast
qed

text \<open>
  C6. If \<^verbatim>\<open>git describe --tags\<close> fails and the commit hash is found, the run goes on to
  the write step with the version \<^verbatim>\<open>"0.1.0"\<close>, followed by \<^verbatim>\<open>DirtyString\<close> when the tree
  is dirty: the result of \<^verbatim>\<open>CreateFile\<close> is the result of that write.
\<close>

theorem tag_failure_falls_back:
  assumes "runGitSingleLineReturn g w ''git'' [''describe'', ''--tags''] = Returns (out, Some e)"
    and "runGitSingleLineReturn g w ''git'' [''rev-parse'', ''HEAD''] = Returns (hash, None)"
    and "runGitSingleLineReturn g w ''git'' [''diff-index'', ''HEAD'']
           = Returns (diffIndex, err3)"
    and "isDirty = fst (uncommitted (IgnoreFiles g) (diffIndexLines diffIndex))"
  shows "CreateFile g w filename =
           Returns (writeVersionFile w filename
             \<lparr>describeTags = ''0.1.0'' @ (if isDirty then DirtyString g else []),
              commit = hash, dirty = isDirty\<rparr>)"
  using assms by (simp add: CreateFile_def Let_def)

theorem tag_failure_falls_back_witness:
  "CreateFile defaults
      (repo (failed 128 ''fatal: No names found, cannot describe anything.'')
            (finished (''abc123'' @ [CHR 0x0A]))
            (finished (''M changed_file.go'' @ [CHR 0x0A])))
      ''version/version.go''
    = Returns (writeVersionFile
        (repo (failed 128 ''fatal: No names found, cannot describe anything.'')
              (finished (''abc123'' @ [CHR 0x0A]))
              (finished (''M changed_file.go'' @ [CHR 0x0A])))
        ''version/version.go''
        \<lparr>describeTags = ''0.1.0+'', commit = ''abc123'', dirty = True\<rparr>)
   \<and> snd (writeVersionFile
        (repo (failed 128 ''fatal: No names found, cannot describe anything.'')
              (finished (''abc123'' @ [CHR 0x0A]))
              (finished (''M changed_file.go'' @ [CHR 0x0A])))
        ''version/version.go''
        \<lparr>describeTags = ''0.1.0+'', commit = ''abc123'', dirty = True\<rparr>) = None
   \<and> pathNode (fst (writeVersionFile
        (repo (failed 128 ''fatal: No names found, cannot describe anything.'')
              (finished (''abc123'' @ [CHR 0x0A]))
              (finished (''M changed_file.go'' @ [CHR 0x0A])))
        ''version/version.go''
        \<lparr>describeTags = ''0.1.0+'', commit = ''abc123'', dirty = True\<rparr>))
        ''version/version.go''
    = Inr (File (fileText \<lparr>describeTags = ''0.1.0+'', commit = ''abc123'', dirty = True\<rparr>))"
proof -
  let ?w = "repo (failed 128 ''fatal: No names found, cannot describe anything.'')
            (finished (''abc123'' @ [CHR 0x0A]))
            (finished (''M changed_file.go'' @ [CHR 0x0A]))"
  let ?f = "''version/version.go''"
  let ?d = "\<lparr>describeTags = ''0.1.0+'', commit = ''abc123'', dirty = True\<rparr>"
  have a1: "runGitSingleLineReturn defaults ?w ''git'' [''describe'', ''--tags'']
      = Returns ([], Some (ExitError 128))"
    by (simp add: run_defs)
  have a2: "runGitSingleLineReturn defaults ?w ''git'' [''rev-parse'', ''HEAD'']
      = Returns (''abc123'', None)"
    by (simp add: run_defs)
  have a3: "runGitSingleLineReturn defaults ?w ''git'' [''diff-index'', ''HEAD'']
      = Returns (''M changed_file.go'', None)"
    by (simp add: run_defs)
  have a4: "True = fst (uncommitted (IgnoreFiles defaults) (diffIndexLines ''M changed_file.go''))"
    by (simp add: run_defs)
  have r: "CreateFile defaults ?w ?f = Returns (writeVersionFile ?w ?f ?d)"
    using tag_failure_falls_back [OF a1 a2 a3 a4, of ?f]
    by (simp add: defaults_def DefaultDirtyString_def)
  have len: "length (fileText ?d) \<le> 4096"
    by (simp add: fileText_def DefaultPkgName_def)
  have ok: "snd (writeVersionFile ?w ?f ?d) = None"
    using len by (simp add: os_defs)
  then have "writeVersionFile ?w ?f ?d = (fst (writeVersionFile ?w ?f ?d), None)"
    by (cases "writeVersionFile ?w ?f ?d") simp
  then have "pathNode (fst (writeVersionFile ?w ?f ?d)) ?f = Inr (File (fileText ?d))"
    by (rule writeVersionFile_success)
  with r ok show ?thesis by blast
qed

text \<open>
  C5, as the code has it. If \<^verbatim>\<open>git diff-index HEAD\<close> fails, the runner hands back the
  empty string with the error, whatever the command had printed; the error is dropped,
  the scan sees no line, the tree counts as clean, no suffix is appended, and the run
  goes on to the write step.
\<close>

theorem diff_failure_is_swallowed:
  assumes "runGitSingleLineReturn g w ''git'' [''diff-index'', ''HEAD'']
             = Returns (diffIndex, Some e)"
    and "runGitSingleLineReturn g w ''git'' [''rev-parse'', ''HEAD''] = Returns (hash, None)"
    and "runGitSingleLineReturn g w ''git'' [''describe'', ''--tags''] = Returns (out, err1)"
  shows "diffIndex = []
       \<and> CreateFile g w filename =
           Returns (writeVersionFile w filename
             \<lparr>describeTags = (if err1 \<noteq> None then ''0.1.0'' else out),
              commit = hash, dirty = False\<rparr>)"
proof -
  have empty: "diffIndex = []"
    using assms(1)
    by (auto simp: runGitSingleLineReturn_def split: outcome.splits prod.splits option.splits)
  with assms have "CreateFile g w filename =
           Returns (writeVersionFile w filename
             \<lparr>describeTags = (if err1 \<noteq> None then ''0.1.0'' else out),
              commit = hash, dirty = False\<rparr>)"
    by (simp add: CreateFile_def Let_def diffIndexLines_empty)
  with empty show ?thesis by simp
qed

theorem diff_failure_is_swallowed_witness:
  "runGitSingleLineReturn defaults
      (repo (finished (''v1.2.3'' @ [CHR 0x0A])) (finished (''abc123'' @ [CHR 0x0A]))
            (hung (''M main.go'' @ [CHR 0x0A])))
      ''git'' [''diff-index'', ''HEAD''] = Returns ([], Some SignalKilled)
   \<and> CreateFile defaults
      (repo (finished (''v1.2.3'' @ [CHR 0x0A])) (finished (''abc123'' @ [CHR 0x0A]))
            (hung (''M main.go'' @ [CHR 0x0A])))
      ''version/version.go''
    = Returns (writeVersionFile
        (repo (finished (''v1.2.3'' @ [CHR 0x0A])) (finished (''abc123'' @ [CHR 0x0A]))
              (hung (''M main.go'' @ [CHR 0x0A])))
        ''version/version.go''
        \<lparr>describeTags = ''v1.2.3'', commit = ''abc123'', dirty = False\<rparr>)"
proof -
  let ?w = "repo (finished (''v1.2.3'' @ [CHR 0x0A])) (finished (''abc123'' @ [CHR 0x0A]))
            (hung (''M main.go'' @ [CHR 0x0A]))"
  have a1: "runGitSingleLineReturn defaults ?w ''git'' [''diff-index'', ''HEAD'']
      = Returns ([], Some SignalKilled)"
    by (simp add: run_defs)
  have a2: "runGitSingleLineReturn defaults ?w ''git'' [''rev-parse'', ''HEAD'']
      = Returns (''abc123'', None)"
    by (simp add: run_defs)
  have a3: "runGitSingleLineReturn defaults ?w ''git'' [''describe'', ''--tags'']
      = Returns (''v1.2.3'', None)"
    by (simp add: run_defs)
  from diff_failure_is_swallowed [OF a1 a2 a3, of "''version/version.go''"] a1
  show ?thesis by simp
qed

text \<open>
  C5, as the specification states it, fails: \<^verbatim>\<open>git diff-index HEAD\<close> is killed by the
  timer after it has printed a changed file that is not ignored. The captured output
  would make the tree dirty, but the run continues with the empty string and writes a
  clean version.
\<close>

theorem diff_failure_drops_captured_output:
  "CombinedOutput (Timeout defaults) (hung (''M main.go'' @ [CHR 0x0A]))
      = Returns (''M main.go'' @ [CHR 0x0A], Some SignalKilled)
   \<and> fst (uncommitted (IgnoreFiles defaults)
            (diffIndexLines (TrimSpace (''M main.go'' @ [CHR 0x0A])))) = True
   \<and> runGitSingleLineReturn defaults
      (repo (finished (''v1.2.3'' @ [CHR 0x0A])) (finished (''abc123'' @ [CHR 0x0A]))
            (hung (''M main.go'' @ [CHR 0x0A])))
      ''git'' [''diff-index'', ''HEAD''] = Returns ([], Some SignalKilled)
   \<and> CreateFile defaults
      (repo (finished (''v1.2.3'' @ [CHR 0x0A])) (finished (''abc123'' @ [CHR 0x0A]))
            (hung (''M main.go'' @ [CHR 0x0A])))
      ''version/version.go''
    = Returns (writeVersionFile
        (repo (finished (''v1.2.3'' @ [CHR 0x0A])) (finished (''abc123'' @ [CHR 0x0A]))
              (hung (''M main.go'' @ [CHR 0x0A])))
        ''version/version.go''
        \<lparr>describeTags = ''v1.2.3'', commit = ''abc123'', dirty = False\<rparr>)
   \<and> pathNode (fst (writeVersionFile
        (repo (finished (''v1.2.3'' @ [CHR 0x0A])) (finished (''abc123'' @ [CHR 0x0A]))
              (hung (''M main.go'' @ [CHR 0x0A])))
        ''version/version.go''
        \<lparr>describeTags = ''v1.2.3'', commit = ''abc123'', dirty = False\<rparr>))
        ''version/version.go''
    = Inr (File (fileText \<lparr>describeTags = ''v1.2.3'', commit = ''abc123'', dirty = False\<rparr>))"
proof -
  let ?w = "repo (finished (''v1.2.3'' @ [CHR 0x0A])) (finished (''abc123'' @ [CHR 0x0A]))
            (hung (''M main.go'' @ [CHR 0x0A]))"
  let ?f = "''version/version.go''"
  let ?d = "\<lparr>describeTags = ''v1.2.3'', commit = ''abc123'', dirty = False\<rparr>"
  have c1: "CombinedOutput (Timeout defaults) (hung (''M main.go'' @ [CHR 0x0A]))
      = Returns (''M main.go'' @ [CHR 0x0A], Some SignalKilled)"
    by (simp add: run_defs)
  have c2: "fst (uncommitted (IgnoreFiles defaults)
            (diffIndexLines (TrimSpace (''M main.go'' @ [CHR 0x0A])))) = True"
    by (simp add: run_defs)
  have c3: "runGitSingleLineReturn defaults ?w ''git'' [''diff-index'', ''HEAD'']
      = Returns ([], Some SignalKilled)"
    by (simp add: run_defs)
  have a2: "runGitSingleLineReturn defaults ?w ''git'' [''rev-parse'', ''HEAD'']
      = Returns (''abc123'', None)"
    by (simp add: run_defs)
  have a3: "runGitSingleLineReturn defaults ?w ''git'' [''describe'', ''--tags'']
      = Returns (''v1.2.3'', None)"
    by (simp add: run_defs)
  have r: "CreateFile defaults ?w ?f = Returns (writeVersionFile ?w ?f ?d)"
    using c3 a2 a3 by (simp add: CreateFile_def Let_def diffIndexLines_empty)
  have len: "length (fileText ?d) \<le> 4096"
    by (simp add: fileText_def DefaultPkgName_def)
  have ok: "snd (writeVersionFile ?w ?f ?d) = None"
    using len by (simp add: os_defs)
  then have "writeVersionFile ?w ?f ?d = (fst (writeVersionFile ?w ?f ?d), None)"
    by (cases "writeVersionFile ?w ?f ?d") simp
  then have c4: "pathNode (fst (writeVersionFile ?w ?f ?d)) ?f = Inr (File (fileText ?d))"
    by (rule writeVersionFile_success)
  from c1 c2 c3 r c4 show ?thesis by blast
qed

section \<open>The renderer\<close>

lemma CreateFile_returns:
  assumes "CreateFile g w filename = Returns (w', None)"
    and "runGitSingleLineReturn g w ''git'' [''describe'', ''--tags''] = Returns (out, err1)"
    and "runGitSingleLineReturn g w ''git'' [''rev-parse'', ''HEAD''] = Returns (hash, err2)"
    and "runGitSingleLineReturn g w ''git'' [''diff-index'', ''HEAD'']
           = Returns (diffIndex, err3)"
  shows "writeVersionFile w filename
            \<lparr>describeTags =
               (if err1 \<noteq> None then ''0.1.0'' else out)
               @ (if fst (uncommitted (IgnoreFiles g) (diffIndexLines diffIndex))
                  then DirtyString g else []),
             commit = hash,
             dirty = fst (uncommitted (IgnoreFiles g) (diffIndexLines diffIndex))\<rparr>
           = (w', None)"
proof (cases err2)
  case None
  with assms show ?thesis
    by (auto simp: CreateFile_def Let_def)
next
  case (Some e)
  with assms show ?thesis
    by (simp add: CreateFile_def Let_def)
qed

text \<open>
  C9. When \<^verbatim>\<open>CreateFile\<close> succeeds, the file at the target path holds seven lines: the
  package declaration, the provenance comment, the opening of the constant block, the
  three constants \<^verbatim>\<open>VgVersion\<close>, \<^verbatim>\<open>VgHash\<close> and \<^verbatim>\<open>VgClean\<close>, and the closing
  parenthesis. \<^verbatim>\<open>VgClean\<close> is \<^verbatim>\<open>true\<close> exactly when the scan found the tree not dirty.
  The version and the hash are inserted as they are, so the text splits into exactly
  these lines when neither holds a line feed.
\<close>

theorem written_file_layout:
  assumes "CreateFile g w filename = Returns (w', None)"
    and "runGitSingleLineReturn g w ''git'' [''describe'', ''--tags''] = Returns (out, err1)"
    and "runGitSingleLineReturn g w ''git'' [''rev-parse'', ''HEAD''] = Returns (hash, err2)"
    and "runGitSingleLineReturn g w ''git'' [''diff-index'', ''HEAD'']
           = Returns (diffIndex, err3)"
    and "isDirty = fst (uncommitted (IgnoreFiles g) (diffIndexLines diffIndex))"
    and "version =
          (if err1 \<noteq> None then ''0.1.0'' else out) @ (if isDirty then DirtyString g else [])"
    and "layout =
          [''package version'',
           ''// auto generated by github.com/Akagi201/utils-go/vergen'',
           ''const ('',
           [CHR 0x09] @ ''VgVersion   = '' @ [CHR 0x22] @ version @ [CHR 0x22],
           [CHR 0x09] @ ''VgHash      = '' @ [CHR 0x22] @ hash @ [CHR 0x22],
           [CHR 0x09] @ ''VgClean     = '' @ (if isDirty then ''false'' else ''true''),
           '')'']"
  shows "(\<exists>content. pathNode w' filename = Inr (File content)
            \<and> content = concat (map (\<lambda>l. l @ [CHR 0x0A]) layout)
            \<and> (CHR 0x0A \<notin> set version \<and> CHR 0x0A \<notin> set hash \<longrightarrow>
                 Split content (CHR 0x0A) = layout @ [[]]))"
proof -
  let ?data = "\<lparr>describeTags = version, commit = hash, dirty = isDirty\<rparr>"
  from CreateFile_returns [OF assms(1,2,3,4)]
  have "writeVersionFile w filename ?data = (w', None)"
    unfolding assms(5,6) by simp
  then have stored: "pathNode w' filename = Inr (File (fileText ?data))"
    by (rule writeVersionFile_success)
  have content: "fileText ?data = concat (map (\<lambda>l. l @ [CHR 0x0A]) layout)"
    unfolding assms(7) by (simp add: fileText_layout)
  have lines: "Split (concat (map (\<lambda>l. l @ [CHR 0x0A]) layout)) (CHR 0x0A) = layout @ [[]]"
    if nl: "CHR 0x0A \<notin> set version \<and> CHR 0x0A \<notin> set hash"
  proof -
    have each: "\<forall>l\<in>set layout. CHR 0x0A \<notin> set l"
      unfolding assms(7) using nl by simp
    have "\<forall>l\<in>set ls. CHR 0x0A \<notin> set l \<Longrightarrow>
        Split (concat (map (\<lambda>l. l @ [CHR 0x0A]) ls)) (CHR 0x0A) = ls @ [[]]" for ls
      by (induction ls) (simp_all add: Split_line)
    with each show ?thesis by blast
  qed
  from stored content lines show ?thesis by simp
qed

theorem written_file_layout_witness:
  "CreateFile defaults
       (repo (finished (''v1.2.3'' @ [CHR 0x0A])) (finished (''abc123'' @ [CHR 0x0A]))
             (finished (''M changed_file.go'' @ [CHR 0x0A])))
       ''version/version.go''
     = Returns (writeVersionFile
       (repo (finished (''v1.2.3'' @ [CHR 0x0A])) (finished (''abc123'' @ [CHR 0x0A]))
             (finished (''M changed_file.go'' @ [CHR 0x0A])))
       ''version/version.go''
       \<lparr>describeTags = ''v1.2.3+'', commit = ''abc123'', dirty = True\<rparr>)
   \<and> (\<exists>content.
       pathNode (fst (writeVersionFile
         (repo (finished (''v1.2.3'' @ [CHR 0x0A])) (finished (''abc123'' @ [CHR 0x0A]))
               (finished (''M changed_file.go'' @ [CHR 0x0A])))
         ''version/version.go''
         \<lparr>describeTags = ''v1.2.3+'', commit = ''abc123'', dirty = True\<rparr>))
         ''version/version.go'' = Inr (File content)
       \<and> Split content (CHR 0x0A) =
           [''package version'',
            ''// auto generated by github.com/Akagi201/utils-go/vergen'',
            ''const ('',
            [CHR 0x09] @ ''VgVersion   = '' @ [CHR 0x22] @ ''v1.2.3+'' @ [CHR 0x22],
            [CHR 0x09] @ ''VgHash      = '' @ [CHR 0x22] @ ''abc123'' @ [CHR 0x22],
            [CHR 0x09] @ ''VgClean     = false'',
            '')'', []])"
proof -
  let ?w = "repo (finished (''v1.2.3'' @ [CHR 0x0A])) (finished (''abc123'' @ [CHR 0x0A]))
             (finished (''M changed_file.go'' @ [CHR 0x0A]))"
  let ?f = "''version/version.go''"
  let ?d = "\<lparr>describeTags = ''v1.2.3+'', commit = ''abc123'', dirty = True\<rparr>"
  have a1: "runGitSingleLineReturn defaults ?w ''git'' [''describe'', ''--tags'']
      = Returns (''v1.2.3'', None)"
    by (simp add: run_defs)
  have a2: "runGitSingleLineReturn defaults ?w ''git'' [''rev-parse'', ''HEAD'']
      = Returns (''abc123'', None)"
    by (simp add: run_defs)
  have a3: "runGitSingleLineReturn defaults ?w ''git'' [''diff-index'', ''HEAD'']
      = Returns (''M changed_file.go'', None)"
    by (simp add: run_defs)
  have d: "fst (uncommitted (IgnoreFiles defaults) (diffIndexLines ''M changed_file.go'')) = True"
    by (simp add: run_defs)
  have r: "CreateFile defaults ?w ?f = Returns (writeVersionFile ?w ?f ?d)"
    using a1 a2 a3 d by (simp add: CreateFile_def Let_def defaults_def DefaultDirtyString_def)
  have len: "length (fileText ?d) \<le> 4096"
    by (simp add: fileText_def DefaultPkgName_def)
  have ok: "snd (writeVersionFile ?w ?f ?d) = None"
    using len by (simp add: os_defs)
  with r have h: "CreateFile defaults ?w ?f = Returns (fst (writeVersionFile ?w ?f ?d), None)"
    by (cases "writeVersionFile ?w ?f ?d") simp
  have h5: "True = fst (uncommitted (IgnoreFiles defaults) (diffIndexLines ''M changed_file.go''))"
    using d by simp
  have h6: "''v1.2.3+'' =
          (if (None :: exec_error option) \<noteq> None then ''0.1.0'' else ''v1.2.3'')
          @ (if True then DirtyString defaults else [])"
    by (simp add: defaults_def DefaultDirtyString_def)
  from written_file_layout [OF h a1 a2 a3 h5 h6 refl] r
  show ?thesis by simp
qed

text \<open>
  C7, as the code has it. Whatever the file name, the renderer asks whether something
  named \<^verbatim>\<open>version\<close> (\<^verbatim>\<open>DefaultPkgName\<close>) exists in the working directory and, if not,
  tries to create that directory, without looking at the outcome; it creates no other
  directory. It then creates or truncates the file the given path names and writes the
  text: on success the file holds exactly the text, whatever it held before. The call
  returns an error, always an \<open>IOError\<close>, exactly when \<^verbatim>\<open>os.Create\<close> or \<^verbatim>\<open>file.Write\<close>
  fails, and the error is theirs.
\<close>

theorem writeVersionFile_effects:
  assumes "w1 = (if IsNotExist (Stat w DefaultPkgName) then fst (Mkdir w DefaultPkgName) else w)"
    and "r = writeVersionFile w filename data"
  shows "(Stat w DefaultPkgName = Some ENOENT \<and> \<not> denied w (cwd w @ [DefaultPkgName]) \<longrightarrow>
            pathNode (fst r) DefaultPkgName = Inr Dir)
       \<and> (\<forall>k. nodeAt (fst r) k = Some Dir \<longrightarrow>
            nodeAt w k = Some Dir \<or> k = cwd w @ [DefaultPkgName])
       \<and> (snd r = None \<longrightarrow> pathNode (fst r) filename = Inr (File (fileText data)))
       \<and> (\<forall>e. snd r = Some (IOError e) \<longleftrightarrow>
            snd (Create w1 filename) = Inl e
            \<or> (\<exists>h. snd (Create w1 filename) = Inr h
                 \<and> snd (Write (fst (Create w1 filename)) h (fileText data)) = Some e))
       \<and> (snd r = None \<or> (\<exists>e. snd r = Some (IOError e)))"
proof -
  note u = writeVersionFile_unfold [OF assms(1), of filename data]
  let ?kv = "cwd w @ [DefaultPkgName]"
  have kv: "?kv \<noteq> []" by simp
  have w1_nodes: "nodeAt w1 k = (if k = ?kv \<and> nodeAt w ?kv = None \<and> \<not> denied w ?kv
                                  then Some Dir else nodeAt w k)" for k
    unfolding assms(1) Stat_DefaultPkgName Mkdir_DefaultPkgName
    by (simp add: nodeAt_update [OF kv])
  have w1_cwd: "cwd w1 = cwd w"
    unfolding assms(1) Stat_DefaultPkgName Mkdir_DefaultPkgName by simp
  have r_nodes: "nodeAt (fst r) k = Some Dir \<longleftrightarrow> nodeAt w1 k = Some Dir" for k
  proof (cases "Create w1 filename")
    case (Pair w2 res)
    show ?thesis
    proof (cases res)
      case (Inl e)
      with Pair show ?thesis unfolding assms(2) u by simp
    next
      case (Inr h)
      with Pair Create_success [of w1 filename w2 h]
      have h: "h \<noteq> []" "nodeAt w1 h \<noteq> Some Dir"
        and w2: "w2 = w1\<lparr>nodes := (nodes w1)(h \<mapsto> File [])\<rparr>"
        by auto
      from Pair Inr have "fst r = w2\<lparr>nodes := (nodes w2)(h \<mapsto> File (take (room w2) (fileText data)))\<rparr>"
        unfolding assms(2) u by (simp add: Write_world)
      then show ?thesis
        using h by (auto simp: w2 nodeAt_def)
    qed
  qed
  have r_cwd: "cwd (fst r) = cwd w"
  proof (cases "Create w1 filename")
    case (Pair w2 res)
    show ?thesis
    proof (cases res)
      case (Inl e)
      with Pair w1_cwd show ?thesis unfolding assms(2) u by simp
    next
      case (Inr h)
      with Pair Create_success [of w1 filename w2 h]
      have "cwd w2 = cwd w1" by auto
      with Pair Inr w1_cwd show ?thesis
        unfolding assms(2) u by (simp add: Write_world)
    qed
  qed
  have dir: "pathNode (fst r) DefaultPkgName = Inr Dir"
    if "Stat w DefaultPkgName = Some ENOENT" and "\<not> denied w ?kv"
  proof -
    from that(1) have "nodeAt w ?kv = None"
      using Stat_DefaultPkgName [of w] by (simp add: IsNotExist_def)
    with that(2) have "nodeAt w1 ?kv = Some Dir"
      by (simp add: w1_nodes)
    then have "nodeAt (fst r) ?kv = Some Dir"
      by (simp add: r_nodes)
    then show ?thesis
      by (simp add: pathNode_DefaultPkgName r_cwd)
  qed
  have only: "nodeAt w k = Some Dir \<or> k = ?kv" if "nodeAt (fst r) k = Some Dir" for k
    using that by (auto simp: r_nodes w1_nodes split: if_splits)
  have ok: "pathNode (fst r) filename = Inr (File (fileText data))" if "snd r = None"
  proof -
    from that have "writeVersionFile w filename data = (fst r, None)"
      unfolding assms(2) by (cases "writeVersionFile w filename data") simp
    then show ?thesis by (rule writeVersionFile_success)
  qed
  have err: "snd r = Some (IOError e) \<longleftrightarrow>
            snd (Create w1 filename) = Inl e
            \<or> (\<exists>h. snd (Create w1 filename) = Inr h
                 \<and> snd (Write (fst (Create w1 filename)) h (fileText data)) = Some e)" for e
    unfolding assms(2) u by (auto split: sum.splits)
  have kind: "snd r = None \<or> (\<exists>e. snd r = Some (IOError e))"
    unfolding assms(2) u by (auto split: sum.splits)
  from dir only ok err kind show ?thesis by blast
qed

theorem writeVersionFile_effects_witness:
  "snd (writeVersionFile
      ((repo (finished []) (finished []) (finished []))
         \<lparr>nodes := [[''work''] \<mapsto> Dir,
                    [''work'', ''version.go''] \<mapsto> File ''package old'']\<rparr>)
      ''./version.go''
      \<lparr>describeTags = ''v1.2.3'', commit = ''abc123'', dirty = False\<rparr>) = None
   \<and> pathNode (fst (writeVersionFile
      ((repo (finished []) (finished []) (finished []))
         \<lparr>nodes := [[''work''] \<mapsto> Dir,
                    [''work'', ''version.go''] \<mapsto> File ''package old'']\<rparr>)
      ''./version.go''
      \<lparr>describeTags = ''v1.2.3'', commit = ''abc123'', dirty = False\<rparr>)) ''./version.go''
     = Inr (File (fileText \<lparr>describeTags = ''v1.2.3'', commit = ''abc123'', dirty = False\<rparr>))
   \<and> pathNode (fst (writeVersionFile
      ((repo (finished []) (finished []) (finished []))
         \<lparr>nodes := [[''work''] \<mapsto> Dir,
                    [''work'', ''version.go''] \<mapsto> File ''package old'']\<rparr>)
      ''./version.go''
      \<lparr>describeTags = ''v1.2.3'', commit = ''abc123'', dirty = False\<rparr>)) ''version''
     = Inr Dir
   \<and> snd (writeVersionFile
      ((repo (finished []) (finished []) (finished []))
         \<lparr>nodes := [[''work''] \<mapsto> Dir,
                    [''work'', ''version.go''] \<mapsto> File ''package old''],
          denied := (\<lambda>k. k = [''work'', ''version''])\<rparr>)
      ''version.go''
      \<lparr>describeTags = ''v1.2.3'', commit = ''abc123'', dirty = False\<rparr>) = None
   \<and> pathNode (fst (writeVersionFile
      ((repo (finished []) (finished []) (finished []))
         \<lparr>nodes := [[''work''] \<mapsto> Dir,
                    [''work'', ''version.go''] \<mapsto> File ''package old''],
          denied := (\<lambda>k. k = [''work'', ''version''])\<rparr>)
      ''version.go''
      \<lparr>describeTags = ''v1.2.3'', commit = ''abc123'', dirty = False\<rparr>)) ''version.go''
     = Inr (File (fileText \<lparr>describeTags = ''v1.2.3'', commit = ''abc123'', dirty = False\<rparr>))
   \<and> pathNode (fst (writeVersionFile
      ((repo (finished []) (finished []) (finished []))
         \<lparr>nodes := [[''work''] \<mapsto> Dir,
                    [''work'', ''version.go''] \<mapsto> File ''package old''],
          denied := (\<lambda>k. k = [''work'', ''version''])\<rparr>)
      ''version.go''
      \<lparr>describeTags = ''v1.2.3'', commit = ''abc123'', dirty = False\<rparr>)) ''version''
     = Inl ENOENT"
proof -
  let ?a = "(repo (finished []) (finished []) (finished []))
         \<lparr>nodes := [[''work''] \<mapsto> Dir,
                    [''work'', ''version.go''] \<mapsto> File ''package old'']\<rparr>"
  let ?b = "(repo (finished []) (finished []) (finished []))
         \<lparr>nodes := [[''work''] \<mapsto> Dir,
                    [''work'', ''version.go''] \<mapsto> File ''package old''],
          denied := (\<lambda>k. k = [''work'', ''version''])\<rparr>"
  let ?d = "\<lparr>describeTags = ''v1.2.3'', commit = ''abc123'', dirty = False\<rparr>"
  let ?ra = "writeVersionFile ?a ''./version.go'' ?d"
  let ?rb = "writeVersionFile ?b ''version.go'' ?d"
  have len: "length (fileText ?d) \<le> 4096"
    by (simp add: fileText_def DefaultPkgName_def)
  have oka: "snd ?ra = None"
    using len by (simp add: os_defs)
  have okb: "snd ?rb = None"
    using len by (simp add: os_defs)
  have absent: "Stat ?a DefaultPkgName = Some ENOENT \<and> \<not> denied ?a (cwd ?a @ [DefaultPkgName])"
    by (simp add: os_defs)
  have refused: "pathNode (fst ?rb) ''version'' = Inl ENOENT"
    using len by (simp add: os_defs)
  note ta = writeVersionFile_effects [OF refl refl, of ?a "''./version.go''" ?d]
  note tb = writeVersionFile_effects [OF refl refl, of ?b "''version.go''" ?d]
  from ta oka have fa: "pathNode (fst ?ra) ''./version.go'' = Inr (File (fileText ?d))"
    by blast
  from ta absent have da: "pathNode (fst ?ra) ''version'' = Inr Dir"
    by (simp add: DefaultPkgName_def)
  from tb okb have fb: "pathNode (fst ?rb) ''version.go'' = Inr (File (fileText ?d))"
    by blast
  from oka fa da okb fb refused show ?thesis by blast
qed

text \<open>
  C7, as the specification states it, fails: asked for \<^verbatim>\<open>out/version.go\<close> in an empty
  working directory, the run creates the directory \<^verbatim>\<open>version\<close>, not \<^verbatim>\<open>out\<close>, and
  \<^verbatim>\<open>os.Create\<close> fails for want of the directory; no file is written.
\<close>

theorem destination_directory_is_not_created:
  "CreateFile defaults
        (repo (finished ''v1.2.3'') (finished ''abc123'') (finished []))
        ''out/version.go''
     = Returns (writeVersionFile
        (repo (finished ''v1.2.3'') (finished ''abc123'') (finished []))
        ''out/version.go''
        \<lparr>describeTags = ''v1.2.3'', commit = ''abc123'', dirty = False\<rparr>)
   \<and> pathNode (fst (writeVersionFile
        (repo (finished ''v1.2.3'') (finished ''abc123'') (finished []))
        ''out/version.go''
        \<lparr>describeTags = ''v1.2.3'', commit = ''abc123'', dirty = False\<rparr>)) ''out''
     = Inl ENOENT
   \<and> pathNode (fst (writeVersionFile
        (repo (finished ''v1.2.3'') (finished ''abc123'') (finished []))
        ''out/version.go''
        \<lparr>describeTags = ''v1.2.3'', commit = ''abc123'', dirty = False\<rparr>)) ''version''
     = Inr Dir
   \<and> pathNode (fst (writeVersionFile
        (repo (finished ''v1.2.3'') (finished ''abc123'') (finished []))
        ''out/version.go''
        \<lparr>describeTags = ''v1.2.3'', commit = ''abc123'', dirty = False\<rparr>)) ''out/version.go''
     = Inl ENOENT
   \<and> snd (writeVersionFile
        (repo (finished ''v1.2.3'') (finished ''abc123'') (finished []))
        ''out/version.go''
        \<lparr>describeTags = ''v1.2.3'', commit = ''abc123'', dirty = False\<rparr>)
     = Some (IOError ENOENT)"
proof -
  let ?w = "repo (finished ''v1.2.3'') (finished ''abc123'') (finished [])"
  let ?d = "\<lparr>describeTags = ''v1.2.3'', commit = ''abc123'', dirty = False\<rparr>"
  have a1: "runGitSingleLineReturn defaults ?w ''git'' [''describe'', ''--tags'']
      = Returns (''v1.2.3'', None)"
    by (simp add: run_defs)
  have a2: "runGitSingleLineReturn defaults ?w ''git'' [''rev-parse'', ''HEAD'']
      = Returns (''abc123'', None)"
    by (simp add: run_defs)
  have a3: "runGitSingleLineReturn defaults ?w ''git'' [''diff-index'', ''HEAD'']
      = Returns ([], None)"
    by (simp add: run_defs)
  have r: "CreateFile defaults ?w ''out/version.go''
      = Returns (writeVersionFile ?w ''out/version.go'' ?d)"
    using a1 a2 a3 by (simp add: CreateFile_def Let_def diffIndexLines_empty)
  have e: "snd (writeVersionFile ?w ''out/version.go'' ?d) = Some (IOError ENOENT)"
    by (simp add: os_defs)
  have p1: "pathNode (fst (writeVersionFile ?w ''out/version.go'' ?d)) ''out'' = Inl ENOENT"
    by (simp add: os_defs)
  have p2: "pathNode (fst (writeVersionFile ?w ''out/version.go'' ?d)) ''version'' = Inr Dir"
    by (simp add: os_defs)
  have p3: "pathNode (fst (writeVersionFile ?w ''out/version.go'' ?d)) ''out/version.go''
      = Inl ENOENT"
    by (simp add: os_defs)
  from r e p1 p2 p3 show ?thesis by blast
qed

section \<open>The command runner\<close>

lemma runner_returns:
  assumes "p = exec w command args"
    and "int (start_time p) < Timeout g"
  shows "\<exists>out err. runGitSingleLineReturn g w command args = Returns (out, err)
       \<and> (err \<noteq> None \<longleftrightarrow> \<not> spawns p \<or> Timeout g \<le> run_time p \<or> exit_status p \<noteq> 0)
       \<and> (err \<noteq> None \<longrightarrow> out = [])
       \<and> (err = None \<longrightarrow> out = TrimSpace (combined p))
       \<and> (\<forall>t\<in>set spaceRunes. \<not> prefix t out \<and> \<not> suffix t out)"
proof -
  define err where "err =
     (if \<not> spawns p then Some StartError
      else if Timeout g \<le> run_time p then Some SignalKilled
      else if exit_status p \<noteq> 0 then Some (ExitError (exit_status p))
      else None)"
  define raw where "raw = (if spawns p then combined p else [])"
  have c: "CombinedOutput (Timeout g) p = Returns (raw, err)"
    using assms(2) by (simp add: CombinedOutput_def err_def raw_def)
  have e: "err \<noteq> None \<longleftrightarrow> \<not> spawns p \<or> Timeout g \<le> run_time p \<or> exit_status p \<noteq> 0"
    by (simp add: err_def)
  have raw: "err = None \<longrightarrow> raw = combined p"
    by (simp add: err_def raw_def)
  define out where "out = (if err = None then TrimSpace raw else [])"
  have r: "runGitSingleLineReturn g w command args = Returns (out, err)"
    using c unfolding assms(1) out_def
    by (cases err) (simp_all add: runGitSingleLineReturn_def)
  have f: "out = []" if "err \<noteq> None"
    using that by (auto simp: out_def)
  have s: "out = TrimSpace (combined p)" if "err = None"
    using that raw by (simp add: out_def)
  have t: "\<not> prefix t out \<and> \<not> suffix t out" if t: "t \<in> set spaceRunes" for t
  proof (cases "err = None")
    case True
    with s TrimSpace_no_space [OF t, of "combined p"] show ?thesis by simp
  next
    case False
    with f t spaceRunes_nonempty show ?thesis by auto
  qed
  from r e f s t show ?thesis by blast
qed

text \<open>
  C8. The runner is meant to return an error when the timer stops the command, but the
  timer is armed before the process exists. With \<^verbatim>\<open>Timeout\<close> set to 0, or to less than
  the time the start takes, the timer fires while \<^verbatim>\<open>cmd.Process\<close> is nil and the program
  panics: the runner returns neither a result nor an error, and \<^verbatim>\<open>CreateFile\<close> with it.
\<close>

theorem runner_panics_when_timer_fires_first:
  "runGitSingleLineReturn (defaults\<lparr>Timeout := 0\<rparr>)
      (repo (finished ''v1.2.3'') (finished ''abc123'') (finished []))
      ''git'' [''describe'', ''--tags''] = Panic
   \<and> runGitSingleLineReturn (defaults\<lparr>Timeout := 100000\<rparr>)
      (repo (finished ''v1.2.3'') (finished ''abc123'') (finished []))
      ''git'' [''describe'', ''--tags''] = Panic
   \<and> CreateFile (defaults\<lparr>Timeout := 0\<rparr>)
      (repo (finished ''v1.2.3'') (finished ''abc123'') (finished []))
      ''version/version.go'' = Panic
   \<and> runGitSingleLineReturn defaults
      (repo (finished ''v1.2.3'') (finished ''abc123'') (finished []))
      ''git'' [''describe'', ''--tags''] = Returns (''v1.2.3'', None)"
  by (simp add: run_defs)

end
